theory Spec2Isabelle
  imports Main
begin

section \<open>JavaScript values\<close>

text \<open>
  The webhook handler of \<^verbatim>\<open>src/server.js\<close> reads string fields of a parsed JSON body.
  A field is a \<open>string option\<close>: \<open>None\<close> is \<^verbatim>\<open>undefined\<close>/\<^verbatim>\<open>null\<close>, and a string
  is falsy when it is empty. Characters are bytes, so only the ASCII part of JavaScript's
  string functions is modelled. Console output is not modelled.
\<close>

definition truthy :: "string option \<Rightarrow> bool" where
  "truthy v = (case v of None \<Rightarrow> False | Some s \<Rightarrow> s \<noteq> [])"

definition lowerChar :: "char \<Rightarrow> char" where
  "lowerChar c =
     (case map_of (zip ''ABCDEFGHIJKLMNOPQRSTUVWXYZ'' ''abcdefghijklmnopqrstuvwxyz'') c of
        None \<Rightarrow> c
      | Some l \<Rightarrow> l)"

definition toLowerCase :: "string \<Rightarrow> string" where
  "toLowerCase s = map lowerChar s"

datatype error = TypeError | SyntaxError | NumericFault | ValidationError | DuplicateKey

subsection \<open>Decimal strings of unbounded integers\<close>

definition digitChar :: "nat \<Rightarrow> char" where
  "digitChar d = ''0123456789'' ! d"

text \<open>\<^verbatim>\<open>toString()\<close> of a non-negative big number: its decimal digits, no leading zero.\<close>

fun natToString :: "nat \<Rightarrow> string" where
  "natToString n =
     (if n < 10 then [digitChar n] else natToString (n div 10) @ [digitChar (n mod 10)])"

declare natToString.simps [simp del]

text \<open>\<^verbatim>\<open>(x).toString()\<close> of a \<^verbatim>\<open>BigInt\<close>.\<close>

definition BigInt_toString :: "int \<Rightarrow> string" where
  "BigInt_toString i =
     (if i < 0 then CHR ''-'' # natToString (nat (- i)) else natToString (nat i))"

definition digitValue :: "char \<Rightarrow> nat option" where
  "digitValue c =
     map_of (zip ''0123456789abcdefABCDEF''
                 [0, 1, 2, 3, 4, 5, 6, 7, 8, 9, 10, 11, 12, 13, 14, 15, 10, 11, 12, 13, 14, 15]) c"

fun digitsValue :: "nat \<Rightarrow> nat \<Rightarrow> string \<Rightarrow> nat option" where
  "digitsValue b acc [] = Some acc"
| "digitsValue b acc (c # cs) =
     (case digitValue c of
        None \<Rightarrow> None
      | Some d \<Rightarrow> if d < b then digitsValue b (acc * b + d) cs else None)"

definition parseDigits :: "nat \<Rightarrow> string \<Rightarrow> nat option" where
  "parseDigits b s = (if s = [] then None else digitsValue b 0 s)"

definition isWhiteSpace :: "char \<Rightarrow> bool" where
  "isWhiteSpace c = (c \<in> set [CHR 0x09, CHR 0x0A, CHR 0x0B, CHR 0x0C, CHR 0x0D, CHR 0x20])"

definition trim :: "string \<Rightarrow> string" where
  "trim s = rev (dropWhile isWhiteSpace (rev (dropWhile isWhiteSpace s)))"

text \<open>
  \<^verbatim>\<open>BigInt(s)\<close> on a string: surrounding white space (tab, line feed, vertical tab,
  form feed, carriage return, space) is dropped, the empty string is \<open>0\<close>, a decimal
  literal may carry a sign, and the prefixes \<^verbatim>\<open>0x\<close>, \<^verbatim>\<open>0o\<close>, \<^verbatim>\<open>0b\<close> select
  another base. Anything else throws a \<^verbatim>\<open>SyntaxError\<close>.
\<close>

definition StringToBigInt :: "string \<Rightarrow> int option" where
  "StringToBigInt s =
     (case trim s of
        [] \<Rightarrow> Some 0
      | c # cs \<Rightarrow>
          if c = CHR ''+'' then map_option int (parseDigits 10 cs)
          else if c = CHR ''-'' then map_option (\<lambda>n. - int n) (parseDigits 10 cs)
          else if c = CHR ''0'' \<and> cs \<noteq> [] \<and> hd cs \<in> set ''xX''
            then map_option int (parseDigits 16 (tl cs))
          else if c = CHR ''0'' \<and> cs \<noteq> [] \<and> hd cs \<in> set ''oO''
            then map_option int (parseDigits 8 (tl cs))
          else if c = CHR ''0'' \<and> cs \<noteq> [] \<and> hd cs \<in> set ''bB''
            then map_option int (parseDigits 2 (tl cs))
          else map_option int (parseDigits 10 (c # cs)))"

definition BigInt :: "string \<Rightarrow> error + int" where
  "BigInt s = (case StringToBigInt s of None \<Rightarrow> Inl SyntaxError | Some i \<Rightarrow> Inr i)"

text \<open>
  \<^verbatim>\<open>toNumber()\<close> of a decoded \<^verbatim>\<open>uint256\<close>: the library throws when the value needs
  more than 53 bits.
\<close>

definition toNumber :: "nat \<Rightarrow> error + nat" where
  "toNumber n = (if n < 2 ^ 53 then Inr n else Inl NumericFault)"

section \<open>Documents and collections\<close>

text \<open>
  Each mongoose model is a list of documents in insertion order. \<open>_id\<close> is a number
  taken from a counter when the document is first written. The date fields
  (\<^verbatim>\<open>processedAt\<close>, \<^verbatim>\<open>timestamp\<close>) are left out: they hold the wall clock. A field
  the schema declares \<^verbatim>\<open>unique\<close> has a unique index: inserting a second document with
  the same value fails. A string field declared \<^verbatim>\<open>required\<close> must not be empty.
\<close>

record fungible_doc =
  f_id :: nat
  f_address :: string
  f_balance :: string

record holding_doc =
  h_id :: nat
  h_tokenId :: string
  h_owner :: string

record transaction_doc =
  t_id :: nat
  t_transactionHash :: string

datatype token_type = ERC721 | ERC404

record opening_doc =
  o_id :: nat
  o_tokenId :: string
  o_transactionHash :: string
  o_tokenType :: token_type
  o_opener :: string

record level_doc =
  l_winAmount :: string
  l_rollNumber :: nat

record minting_doc =
  m_id :: nat
  m_tokenId :: string
  m_levels :: "level_doc list"
  m_rollResult :: "nat option"
  m_payout :: "string option"
  m_transactionHash :: string

text \<open>
  What the outside sees, in order: a frame sent to a connected client by
  \<^verbatim>\<open>broadcastUpdate\<close>, and the insertion of the ProcessedTransaction record.
\<close>

datatype event = Send nat string string | MarkProcessed string

record world =
  ERC404Fungible :: "fungible_doc list"
  ERC404NFT :: "holding_doc list"
  ERC721Holding :: "holding_doc list"
  ProcessedTransaction :: "transaction_doc list"
  Opening :: "opening_doc list"
  MintingDetails :: "minting_doc list"
  nextId :: nat
  wssClients :: "nat list"
  trace :: "event list"

subsection \<open>Holdings: unique \<open>tokenId\<close>, required \<open>tokenId\<close> and \<open>owner\<close>\<close>

definition holding_findOneAndDelete :: "string \<Rightarrow> holding_doc list \<Rightarrow> holding_doc list" where
  "holding_findOneAndDelete tokenId docs =
     (case find (\<lambda>d. h_tokenId d = tokenId) docs of
        None \<Rightarrow> docs
      | Some d \<Rightarrow> remove1 d docs)"

definition holding_create ::
  "string \<Rightarrow> string \<Rightarrow> nat \<Rightarrow> holding_doc list \<Rightarrow> error + holding_doc list" where
  "holding_create tokenId owner i docs =
     (if tokenId = [] \<or> owner = [] then Inl ValidationError
      else if tokenId \<in> set (map h_tokenId docs) then Inl DuplicateKey
      else Inr (docs @ [\<lparr>h_id = i, h_tokenId = tokenId, h_owner = owner\<rparr>]))"

subsection \<open>Fungible balances: unique, required \<open>address\<close>\<close>

definition fungible_save ::
  "bool \<Rightarrow> fungible_doc \<Rightarrow> world \<Rightarrow> error option \<times> world" where
  "fungible_save isNew d w =
     (if f_address d = [] then (Some ValidationError, w)
      else if isNew then
        (if f_address d \<in> set (map f_address (ERC404Fungible w)) then (Some DuplicateKey, w)
         else (None, w\<lparr>ERC404Fungible := ERC404Fungible w @ [d], nextId := Suc (nextId w)\<rparr>))
      else
        (None, w\<lparr>ERC404Fungible :=
                    map (\<lambda>x. if f_id x = f_id d then d else x) (ERC404Fungible w)\<rparr>))"

subsection \<open>Processed transactions: unique, required \<open>transactionHash\<close>\<close>

definition ProcessedTransaction_create :: "string \<Rightarrow> world \<Rightarrow> error option \<times> world" where
  "ProcessedTransaction_create transactionHash w =
     (if transactionHash = [] then (Some ValidationError, w)
      else if transactionHash \<in> set (map t_transactionHash (ProcessedTransaction w))
        then (Some DuplicateKey, w)
      else (None, w\<lparr>ProcessedTransaction :=
                       ProcessedTransaction w
                         @ [\<lparr>t_id = nextId w, t_transactionHash = transactionHash\<rparr>],
                     nextId := Suc (nextId w),
                     trace := trace w @ [MarkProcessed transactionHash]\<rparr>))"

subsection \<open>Openings: no unique key, all fields required\<close>

definition Opening_create ::
  "string \<Rightarrow> string \<Rightarrow> string \<Rightarrow> token_type \<Rightarrow> world \<Rightarrow> error option \<times> world" where
  "Opening_create tokenId opener transactionHash tokenType w =
     (if tokenId = [] \<or> opener = [] \<or> transactionHash = [] then (Some ValidationError, w)
      else (None, w\<lparr>Opening :=
                       Opening w @ [\<lparr>o_id = nextId w, o_tokenId = tokenId,
                                     o_transactionHash = transactionHash,
                                     o_tokenType = tokenType, o_opener = opener\<rparr>],
                     nextId := Suc (nextId w)\<rparr>))"

subsection \<open>Minting details: unique \<open>tokenId\<close>\<close>

definition minting_valid :: "minting_doc \<Rightarrow> bool" where
  "minting_valid d =
     (m_tokenId d \<noteq> [] \<and> m_transactionHash d \<noteq> [] \<and> list_all (\<lambda>l. l_winAmount l \<noteq> []) (m_levels d))"

definition minting_save :: "bool \<Rightarrow> minting_doc \<Rightarrow> world \<Rightarrow> error option \<times> world" where
  "minting_save isNew d w =
     (if \<not> minting_valid d then (Some ValidationError, w)
      else if isNew then
        (if m_tokenId d \<in> set (map m_tokenId (MintingDetails w)) then (Some DuplicateKey, w)
         else (None, w\<lparr>MintingDetails := MintingDetails w @ [d], nextId := Suc (nextId w)\<rparr>))
      else
        (None, w\<lparr>MintingDetails :=
                    map (\<lambda>x. if m_id x = m_id d then d else x) (MintingDetails w)\<rparr>))"

text \<open>\<^verbatim>\<open>findOne({ tokenId })\<close>, or a new document with no levels.\<close>

definition minting_findOrNew :: "string \<Rightarrow> string \<Rightarrow> world \<Rightarrow> bool \<times> minting_doc" where
  "minting_findOrNew tokenId transactionHash w =
     (case find (\<lambda>d. m_tokenId d = tokenId) (MintingDetails w) of
        None \<Rightarrow> (True, \<lparr>m_id = nextId w, m_tokenId = tokenId, m_levels = [],
                        m_rollResult = None, m_payout = None,
                        m_transactionHash = transactionHash\<rparr>)
      | Some d \<Rightarrow> (False, d))"

section \<open>The notifier\<close>

text \<open>
  \<^verbatim>\<open>wssClients\<close> holds the \<^verbatim>\<open>readyState\<close> of each connected client;
  \<^verbatim>\<open>WebSocket.OPEN\<close> is 1. The frame is the pair of the type and the token id.
\<close>

definition broadcastUpdate :: "string \<Rightarrow> string \<Rightarrow> world \<Rightarrow> world" where
  "broadcastUpdate type tokenId w =
     w\<lparr>trace := trace w
         @ map (\<lambda>i. Send i type tokenId)
             (filter (\<lambda>i. wssClients w ! i = 1) [0..<length (wssClients w)])\<rparr>"

section \<open>The webhook body\<close>

record nft_transfer =
  nt_contract :: "string option"
  nt_tokenId :: "string option"
  nt_from :: "string option"
  nt_to :: "string option"
  nt_transactionHash :: "string option"

record erc20_transfer =
  et_contract :: "string option"
  et_from :: "string option"
  et_to :: "string option"
  et_value :: "string option"
  et_transactionHash :: "string option"

record raw_log =
  lg_address :: "string option"
  lg_data :: "string option"
  lg_topic0 :: "string option"
  lg_topic1 :: "string option"
  lg_topic2 :: "string option"
  lg_topic3 :: "string option"

text \<open>
  \<^verbatim>\<open>block\<close> is read from the body and never used. An absent \<^verbatim>\<open>confirmed\<close> is
  \<open>False\<close>; an absent list is \<open>None\<close>.
\<close>

record body =
  confirmed :: bool
  nftTransfers :: "nft_transfer list option"
  erc20Transfers :: "erc20_transfer list option"
  logs :: "raw_log list option"

record response =
  status :: nat
  message :: string

definition erc721Address :: string where
  "erc721Address = ''0xE64Ea2215CD88a5d3cfe764bCEB2c1e3C60ECfC4''"

definition erc404Address :: string where
  "erc404Address = ''0x99A8374c5cf5E45151102F367ada3B47F636951c''"

definition zeroAddress :: string where
  "zeroAddress = ''0x0000000000000000000000000000000000000000''"

section \<open>NFT transfers\<close>

text \<open>The ERC721 branch of the loop over \<^verbatim>\<open>nftTransfers\<close>.\<close>

definition transferERC721 :: "string \<Rightarrow> string \<Rightarrow> string \<Rightarrow> world \<Rightarrow> error option \<times> world" where
  "transferERC721 tokenId from to w =
     (let w1 = (if from \<noteq> zeroAddress
                then w\<lparr>ERC721Holding := holding_findOneAndDelete tokenId (ERC721Holding w)\<rparr>
                else w)
      in case holding_create tokenId (toLowerCase to) (nextId w1) (ERC721Holding w1) of
           Inl e \<Rightarrow> (Some e, w1)
         | Inr docs \<Rightarrow> (None, w1\<lparr>ERC721Holding := docs, nextId := Suc (nextId w1)\<rparr>))"

text \<open>The ERC404 branch, before \<^verbatim>\<open>processedTokenIds.add(tokenId)\<close>.\<close>

definition transferERC404 :: "string \<Rightarrow> string \<Rightarrow> string \<Rightarrow> world \<Rightarrow> error option \<times> world" where
  "transferERC404 tokenId from to w =
     (let w1 = (if from \<noteq> zeroAddress
                then w\<lparr>ERC404NFT := holding_findOneAndDelete tokenId (ERC404NFT w)\<rparr>
                else w)
      in case holding_create tokenId (toLowerCase to) (nextId w1) (ERC404NFT w1) of
           Inl e \<Rightarrow> (Some e, w1)
         | Inr docs \<Rightarrow> (None, w1\<lparr>ERC404NFT := docs, nextId := Suc (nextId w1)\<rparr>))"

text \<open>
  One iteration of the loop. The first argument is \<^verbatim>\<open>processedTokenIds\<close>; the result
  is the set after the iteration, or the error thrown, with the world at that moment.
\<close>

definition nftTransferStep ::
  "string set \<Rightarrow> nft_transfer \<Rightarrow> world \<Rightarrow> (error + string set) \<times> world" where
  "nftTransferStep processedTokenIds transfer w =
     (case (nt_contract transfer, nt_tokenId transfer, nt_from transfer, nt_to transfer) of
        (Some contract, Some tokenId, Some from, Some to) \<Rightarrow>
          if contract = [] \<or> tokenId = [] \<or> from = [] \<or> to = [] then (Inr processedTokenIds, w)
          else if tokenId \<in> processedTokenIds then (Inr processedTokenIds, w)
          else if toLowerCase contract = toLowerCase erc721Address then
            (case transferERC721 tokenId from to w of
               (Some e, w') \<Rightarrow> (Inl e, w')
             | (None, w') \<Rightarrow> (Inr processedTokenIds, w'))
          else if toLowerCase contract = toLowerCase erc404Address then
            (case transferERC404 tokenId from to w of
               (Some e, w') \<Rightarrow> (Inl e, w')
             | (None, w') \<Rightarrow> (Inr (insert tokenId processedTokenIds), w'))
          else (Inr processedTokenIds, w)
      | _ \<Rightarrow> (Inr processedTokenIds, w))"

fun nftTransfersLoop ::
  "string set \<Rightarrow> nft_transfer list \<Rightarrow> world \<Rightarrow> (error + string set) \<times> world" where
  "nftTransfersLoop processedTokenIds [] w = (Inr processedTokenIds, w)"
| "nftTransfersLoop processedTokenIds (transfer # rest) w =
     (case nftTransferStep processedTokenIds transfer w of
        (Inl e, w') \<Rightarrow> (Inl e, w')
      | (Inr seen, w') \<Rightarrow> nftTransfersLoop seen rest w')"

section \<open>Fungible transfers\<close>

definition updateERC404FungibleBalance ::
  "string \<Rightarrow> string \<Rightarrow> bool \<Rightarrow> world \<Rightarrow> error option \<times> world" where
  "updateERC404FungibleBalance address amount isAddition w =
     (let (isNew, balance) =
            (case find (\<lambda>d. f_address d = address) (ERC404Fungible w) of
               None \<Rightarrow> (True, \<lparr>f_id = nextId w, f_address = address, f_balance = ''0''\<rparr>)
             | Some d \<Rightarrow> (False, d))
      in case BigInt (f_balance balance) of
           Inl e \<Rightarrow> (Some e, w)
         | Inr currentBalance \<Rightarrow>
             (case BigInt amount of
                Inl e \<Rightarrow> (Some e, w)
              | Inr amountBigInt \<Rightarrow>
                  fungible_save isNew
                    (balance\<lparr>f_balance :=
                       (if isAddition then BigInt_toString (currentBalance + amountBigInt)
                        else BigInt_toString (currentBalance - amountBigInt))\<rparr>) w))"

definition erc20TransferStep :: "erc20_transfer \<Rightarrow> world \<Rightarrow> error option \<times> world" where
  "erc20TransferStep transfer w =
     (case (et_contract transfer, et_from transfer, et_to transfer, et_value transfer) of
        (Some contract, Some from, Some to, Some val) \<Rightarrow>
          if contract = [] \<or> from = [] \<or> to = [] \<or> val = [] then (None, w)
          else if toLowerCase contract = toLowerCase erc404Address then
            (case (if from \<noteq> zeroAddress
                   then updateERC404FungibleBalance (toLowerCase from) val False w
                   else (None, w)) of
               (Some e, w') \<Rightarrow> (Some e, w')
             | (None, w') \<Rightarrow> updateERC404FungibleBalance (toLowerCase to) val True w')
          else (None, w)
      | _ \<Rightarrow> (None, w))"

fun erc20TransfersLoop :: "erc20_transfer list \<Rightarrow> world \<Rightarrow> error option \<times> world" where
  "erc20TransfersLoop [] w = (None, w)"
| "erc20TransfersLoop (transfer # rest) w =
     (case erc20TransferStep transfer w of
        (Some e, w') \<Rightarrow> (Some e, w')
      | (None, w') \<Rightarrow> erc20TransfersLoop rest w')"

section \<open>Decoding a log\<close>

text \<open>
  \<^verbatim>\<open>parseLog\<close> belongs to the ABI library, which is not part of the repository. The six
  interfaces are a parameter: each takes \<^verbatim>\<open>data\<close> and the topics and throws, returns
  \<^verbatim>\<open>null\<close>, or returns the decoded arguments of its own event. A decoded
  \<^verbatim>\<open>uint256\<close> is a natural number, an address a string.
\<close>

datatype 'a parse_result = ParseThrows | ParseNull | ParseOk 'a

record level_args =
  lv_rollNumber :: nat
  lv_winPercentage :: nat
  lv_winAmount :: nat

record minted_args =
  tm_to :: string
  tm_tokenId :: nat
  tm_isETHVersion :: bool
  tm_levels :: "level_args list"

record opening_args =
  oi_tokenId :: nat
  oi_opener :: string

record resolved_args =
  tr_tokenId :: nat
  tr_rollResult :: nat
  tr_winAmount :: nat

record reward_args =
  rp_winner :: string
  rp_tokenId :: nat
  rp_amount :: nat

record deposited_args =
  pd_depositor :: string
  pd_amount :: nat

record withdrawn_args =
  pw_withdrawer :: string
  pw_amount :: nat

record interfaces =
  parse_TicketMinted :: "string option \<Rightarrow> string list \<Rightarrow> minted_args parse_result"
  parse_TicketOpeningInitiated :: "string option \<Rightarrow> string list \<Rightarrow> opening_args parse_result"
  parse_TicketResolved :: "string option \<Rightarrow> string list \<Rightarrow> resolved_args parse_result"
  parse_RewardPaid :: "string option \<Rightarrow> string list \<Rightarrow> reward_args parse_result"
  parse_PoolDeposited :: "string option \<Rightarrow> string list \<Rightarrow> deposited_args parse_result"
  parse_PoolWithdrawn :: "string option \<Rightarrow> string list \<Rightarrow> withdrawn_args parse_result"

text \<open>\<^verbatim>\<open>decodedLog\<close> together with \<^verbatim>\<open>eventName\<close>.\<close>

datatype decoded =
    TicketMinted minted_args
  | TicketOpeningInitiated opening_args
  | TicketResolved resolved_args
  | RewardPaid reward_args
  | PoolDeposited deposited_args
  | PoolWithdrawn withdrawn_args

text \<open>\<^verbatim>\<open>[topic0, topic1, topic2, topic3].filter(Boolean)\<close>\<close>

definition logTopics :: "raw_log \<Rightarrow> string list" where
  "logTopics log =
     concat (map (\<lambda>v. case v of None \<Rightarrow> [] | Some s \<Rightarrow> if s = [] then [] else [s])
                 [lg_topic0 log, lg_topic1 log, lg_topic2 log, lg_topic3 log])"

text \<open>
  The nested \<^verbatim>\<open>try\<close>/\<^verbatim>\<open>catch\<close> chain followed by
  \<^verbatim>\<open>if (!decodedLog || !eventName) continue\<close>. \<open>None\<close> is \<^verbatim>\<open>continue\<close>.
\<close>

definition decodeLog :: "interfaces \<Rightarrow> string option \<Rightarrow> string list \<Rightarrow> decoded option" where
  "decodeLog ifs dat topics =
     (case parse_TicketMinted ifs dat topics of
        ParseOk a \<Rightarrow> Some (TicketMinted a)
      | ParseNull \<Rightarrow> None
      | ParseThrows \<Rightarrow>
     (case parse_TicketOpeningInitiated ifs dat topics of
        ParseOk a \<Rightarrow> Some (TicketOpeningInitiated a)
      | ParseNull \<Rightarrow> None
      | ParseThrows \<Rightarrow>
     (case parse_TicketResolved ifs dat topics of
        ParseOk a \<Rightarrow> Some (TicketResolved a)
      | ParseNull \<Rightarrow> None
      | ParseThrows \<Rightarrow>
     (case parse_RewardPaid ifs dat topics of
        ParseOk a \<Rightarrow> Some (RewardPaid a)
      | ParseNull \<Rightarrow> None
      | ParseThrows \<Rightarrow>
     (case parse_PoolDeposited ifs dat topics of
        ParseOk a \<Rightarrow> Some (PoolDeposited a)
      | ParseNull \<Rightarrow> None
      | ParseThrows \<Rightarrow>
     (case parse_PoolWithdrawn ifs dat topics of
        ParseOk a \<Rightarrow> Some (PoolWithdrawn a)
      | ParseNull \<Rightarrow> None
      | ParseThrows \<Rightarrow> None))))))"

section \<open>Applying a decoded event\<close>

text \<open>The loop \<^verbatim>\<open>for (const level of levels) mintingDetails.levels.push(...)\<close>.\<close>

fun pushLevels :: "level_doc list \<Rightarrow> level_args list \<Rightarrow> error + level_doc list" where
  "pushLevels acc [] = Inr acc"
| "pushLevels acc (level # rest) =
     (case toNumber (lv_rollNumber level) of
        Inl e \<Rightarrow> Inl e
      | Inr n \<Rightarrow>
          pushLevels (acc @ [\<lparr>l_winAmount = natToString (lv_winAmount level), l_rollNumber = n\<rparr>])
            rest)"

definition onTicketMinted :: "string \<Rightarrow> minted_args \<Rightarrow> world \<Rightarrow> error option \<times> world" where
  "onTicketMinted transactionHash args w =
     (let tokenId = natToString (tm_tokenId args);
          (isNew, mintingDetails) = minting_findOrNew tokenId transactionHash w
      in case pushLevels (m_levels mintingDetails) (tm_levels args) of
           Inl e \<Rightarrow> (Some e, w)
         | Inr levels \<Rightarrow>
             (case minting_save isNew (mintingDetails\<lparr>m_levels := levels\<rparr>) w of
                (Some e, w') \<Rightarrow> (Some e, w')
              | (None, w') \<Rightarrow> (None, broadcastUpdate ''MINTING_DETAILS_UPDATED'' tokenId w')))"

text \<open>The shared tail of the \<^verbatim>\<open>TicketResolved\<close>/\<^verbatim>\<open>RewardPaid\<close> branch.\<close>

definition updateRollAndPayout ::
  "string \<Rightarrow> string \<Rightarrow> nat \<Rightarrow> string \<Rightarrow> world \<Rightarrow> error option \<times> world" where
  "updateRollAndPayout transactionHash tokenId rollResult winAmount w =
     (let (isNew, mintingDetails) = minting_findOrNew tokenId transactionHash w
      in case minting_save isNew
                (mintingDetails\<lparr>m_rollResult := Some rollResult, m_payout := Some winAmount\<rparr>) w of
           (Some e, w') \<Rightarrow> (Some e, w')
         | (None, w') \<Rightarrow> (None, broadcastUpdate ''MINTING_DETAILS_UPDATED'' tokenId w'))"

definition handleEvent ::
  "string \<Rightarrow> token_type \<Rightarrow> decoded \<Rightarrow> world \<Rightarrow> error option \<times> world" where
  "handleEvent transactionHash tokenType ev w =
     (case ev of
        TicketMinted args \<Rightarrow> onTicketMinted transactionHash args w
      | TicketOpeningInitiated args \<Rightarrow>
          Opening_create (natToString (oi_tokenId args)) (toLowerCase (oi_opener args))
            transactionHash tokenType w
      | TicketResolved args \<Rightarrow>
          (case toNumber (tr_rollResult args) of
             Inl e \<Rightarrow> (Some e, w)
           | Inr rollResult \<Rightarrow>
               updateRollAndPayout transactionHash (natToString (tr_tokenId args)) rollResult
                 (natToString (tr_winAmount args)) w)
      | RewardPaid args \<Rightarrow>
          updateRollAndPayout transactionHash (natToString (rp_tokenId args)) 0
            (natToString (rp_amount args)) w
      | PoolDeposited args \<Rightarrow> (None, w)
      | PoolWithdrawn args \<Rightarrow> (None, w))"

text \<open>The body of the per-log \<^verbatim>\<open>try\<close>: the error thrown, if any, and the world then.\<close>

definition logBody :: "interfaces \<Rightarrow> string \<Rightarrow> raw_log \<Rightarrow> world \<Rightarrow> error option \<times> world" where
  "logBody ifs transactionHash log w =
     (if \<not> truthy (lg_topic0 log) then (None, w)
      else case lg_address log of
        None \<Rightarrow> (Some TypeError, w)
      | Some address \<Rightarrow>
          (case (if toLowerCase address = toLowerCase erc721Address then Some ERC721
                 else if toLowerCase address = toLowerCase erc404Address then Some ERC404
                 else None) of
             None \<Rightarrow> (None, w)
           | Some tokenType \<Rightarrow>
               (case decodeLog ifs (lg_data log) (logTopics log) of
                  None \<Rightarrow> (None, w)
                | Some ev \<Rightarrow> handleEvent transactionHash tokenType ev w)))"

text \<open>The per-log \<^verbatim>\<open>catch\<close> logs the error and goes on with the next log.\<close>

definition processLog :: "interfaces \<Rightarrow> string \<Rightarrow> raw_log \<Rightarrow> world \<Rightarrow> world" where
  "processLog ifs transactionHash log w = snd (logBody ifs transactionHash log w)"

fun logsLoop :: "interfaces \<Rightarrow> string \<Rightarrow> raw_log list \<Rightarrow> world \<Rightarrow> world" where
  "logsLoop ifs transactionHash [] w = w"
| "logsLoop ifs transactionHash (log # rest) w =
     logsLoop ifs transactionHash rest (processLog ifs transactionHash log w)"

section \<open>The webhook handler\<close>

definition firstNftHash :: "body \<Rightarrow> string option" where
  "firstNftHash b =
     (case nftTransfers b of Some (t # _) \<Rightarrow> nt_transactionHash t | _ \<Rightarrow> None)"

definition firstErc20Hash :: "body \<Rightarrow> string option" where
  "firstErc20Hash b =
     (case erc20Transfers b of Some (t # _) \<Rightarrow> et_transactionHash t | _ \<Rightarrow> None)"

text \<open>
  \<^verbatim>\<open>nftTransfers?.[0]?.transactionHash || erc20Transfers?.[0]?.transactionHash\<close>
\<close>

definition transactionHashOf :: "body \<Rightarrow> string option" where
  "transactionHashOf b = (if truthy (firstNftHash b) then firstNftHash b else firstErc20Hash b)"

definition listOrEmpty :: "'a list option \<Rightarrow> 'a list" where
  "listOrEmpty xs = (case xs of None \<Rightarrow> [] | Some l \<Rightarrow> l)"

text \<open>The \<^verbatim>\<open>try\<close> block of the handler: the response sent, or the error thrown.\<close>

definition webhookTry :: "interfaces \<Rightarrow> body \<Rightarrow> world \<Rightarrow> (error + response) \<times> world" where
  "webhookTry ifs b w =
     (if confirmed b then
        (Inr \<lparr>status = 200, message = ''Skipped confirmed transaction''\<rparr>, w)
      else case transactionHashOf b of
        None \<Rightarrow> (Inr \<lparr>status = 200, message = ''No transaction hash found''\<rparr>, w)
      | Some transactionHash \<Rightarrow>
         if transactionHash = [] then
           (Inr \<lparr>status = 200, message = ''No transaction hash found''\<rparr>, w)
         else if find (\<lambda>d. t_transactionHash d = transactionHash) (ProcessedTransaction w) \<noteq> None then
           (Inr \<lparr>status = 200, message = ''Transaction already processed''\<rparr>, w)
         else if erc721Address = [] \<or> erc404Address = [] then
           (Inr \<lparr>status = 200, message = ''Contract addresses not configured''\<rparr>, w)
         else
           (case nftTransfersLoop {} (listOrEmpty (nftTransfers b)) w of
              (Inl e, w1) \<Rightarrow> (Inl e, w1)
            | (Inr seen, w1) \<Rightarrow>
                (case erc20TransfersLoop (listOrEmpty (erc20Transfers b)) w1 of
                   (Some e, w2) \<Rightarrow> (Inl e, w2)
                 | (None, w2) \<Rightarrow>
                     (case ProcessedTransaction_create transactionHash
                             (logsLoop ifs transactionHash (listOrEmpty (logs b)) w2) of
                        (Some e, w3) \<Rightarrow> (Inl e, w3)
                      | (None, w3) \<Rightarrow>
                          (Inr \<lparr>status = 200, message = ''Holdings updated successfully''\<rparr>,
                           w3)))))"

text \<open>The handler with its top-level \<^verbatim>\<open>catch\<close>.\<close>

definition webhook :: "interfaces \<Rightarrow> body \<Rightarrow> world \<Rightarrow> response \<times> world" where
  "webhook ifs b w =
     (case webhookTry ifs b w of
        (Inr r, w') \<Rightarrow> (r, w')
      | (Inl e, w') \<Rightarrow>
          (\<lparr>status = 200, message = ''Error occurred but returning 200 to prevent retries''\<rparr>,
           w'))"

section \<open>Sample inputs\<close>

text \<open>
  An instance of the six interfaces for running the handler on concrete bodies: each
  recognises one marker in \<^verbatim>\<open>topic0\<close> and returns fixed arguments for token 7. The
  \<^verbatim>\<open>TicketResolved\<close> interface also accepts the marker of \<^verbatim>\<open>TicketMinted\<close>.
\<close>

definition mintedSample :: minted_args where
  "mintedSample =
     \<lparr>tm_to = ''0xAbC1'', tm_tokenId = 7, tm_isETHVersion = True,
      tm_levels = [\<lparr>lv_rollNumber = 3, lv_winPercentage = 50, lv_winAmount = 1000\<rparr>,
                   \<lparr>lv_rollNumber = 5, lv_winPercentage = 10, lv_winAmount = 250\<rparr>]\<rparr>"

definition sampleInterfaces :: interfaces where
  "sampleInterfaces =
     \<lparr>parse_TicketMinted = (\<lambda>dat topics.
        if topics = [''0x01''] then ParseOk mintedSample else ParseThrows),
      parse_TicketOpeningInitiated = (\<lambda>dat topics.
        if topics = [''0x02''] then ParseOk \<lparr>oi_tokenId = 7, oi_opener = ''0xAbC1''\<rparr>
        else ParseThrows),
      parse_TicketResolved = (\<lambda>dat topics.
        if topics = [''0x03''] \<or> topics = [''0x01''] then
          ParseOk \<lparr>tr_tokenId = 7, tr_rollResult = 4, tr_winAmount = 1000\<rparr>
        else ParseThrows),
      parse_RewardPaid = (\<lambda>dat topics.
        if topics = [''0x04''] then
          ParseOk \<lparr>rp_winner = ''0xAbC1'', rp_tokenId = 7, rp_amount = 1000\<rparr>
        else ParseThrows),
      parse_PoolDeposited = (\<lambda>dat topics.
        if topics = [''0x05''] then ParseOk \<lparr>pd_depositor = ''0xAbC1'', pd_amount = 9\<rparr>
        else ParseThrows),
      parse_PoolWithdrawn = (\<lambda>dat topics.
        if topics = [''0x06''] then ParseOk \<lparr>pw_withdrawer = ''0xAbC1'', pw_amount = 9\<rparr>
        else ParseThrows)\<rparr>"

text \<open>Empty collections and one connected client in state \<^verbatim>\<open>OPEN\<close>.\<close>

definition emptyWorld :: world where
  "emptyWorld =
     \<lparr>ERC404Fungible = [], ERC404NFT = [], ERC721Holding = [], ProcessedTransaction = [],
      Opening = [], MintingDetails = [], nextId = 0, wssClients = [1], trace = []\<rparr>"

definition sampleLog :: "string \<Rightarrow> raw_log" where
  "sampleLog topic0 =
     \<lparr>lg_address = Some erc721Address, lg_data = Some ''0x'', lg_topic0 = Some topic0,
      lg_topic1 = None, lg_topic2 = None, lg_topic3 = None\<rparr>"

definition sampleErc20 :: "string \<Rightarrow> erc20_transfer" where
  "sampleErc20 val =
     \<lparr>et_contract = Some erc404Address, et_from = Some zeroAddress, et_to = Some ''0xB0b'',
      et_value = Some val, et_transactionHash = Some ''0xh1''\<rparr>"

definition sampleNft :: "string \<Rightarrow> string \<Rightarrow> nft_transfer" where
  "sampleNft contract from =
     \<lparr>nt_contract = Some contract, nt_tokenId = Some ''1'', nt_from = Some from,
      nt_to = Some ''0xB0b'', nt_transactionHash = Some ''0xh1''\<rparr>"

definition confirmedBody :: body where
  "confirmedBody =
     \<lparr>confirmed = True, nftTransfers = Some [sampleNft erc721Address zeroAddress],
      erc20Transfers = Some [sampleErc20 ''5''], logs = Some [sampleLog ''0x01'']\<rparr>"

definition noHashBody :: body where
  "noHashBody =
     \<lparr>confirmed = False, nftTransfers = Some [],
      erc20Transfers = Some [(sampleErc20 ''5'')\<lparr>et_transactionHash := None\<rparr>, sampleErc20 ''6''],
      logs = Some [sampleLog ''0x01'']\<rparr>"

definition failingBody :: body where
  "failingBody =
     \<lparr>confirmed = False, nftTransfers = None,
      erc20Transfers = Some [sampleErc20 ''5'', sampleErc20 ''abc''],
      logs = Some [sampleLog ''0x01'']\<rparr>"

definition mintBody :: body where
  "mintBody =
     \<lparr>confirmed = False, nftTransfers = None, erc20Transfers = Some [sampleErc20 ''5''],
      logs = Some [sampleLog ''0x01'']\<rparr>"

section \<open>Reading a balance\<close>

text \<open>
  The \<^verbatim>\<open>fungible\<close> field of \<^verbatim>\<open>GET /holdings/:address\<close>: the balance of the
  address's record, \<^verbatim>\<open>'0'\<close> when there is none.
\<close>

definition fungibleBalanceOf :: "string \<Rightarrow> world \<Rightarrow> string" where
  "fungibleBalanceOf address w =
     (case find (\<lambda>d. f_address d = address) (ERC404Fungible w) of
        None \<Rightarrow> ''0''
      | Some d \<Rightarrow> f_balance d)"

text \<open>
  A balance string as the handler writes it: the \<^verbatim>\<open>toString()\<close> of the number it
  denotes. The schema's default \<^verbatim>\<open>'0'\<close> is one.
\<close>

definition isCanonical :: "string \<Rightarrow> bool" where
  "isCanonical s = (case StringToBigInt s of None \<Rightarrow> False | Some i \<Rightarrow> BigInt_toString i = s)"

definition balancesCanonical :: "world \<Rightarrow> bool" where
  "balancesCanonical w = list_all (\<lambda>d. isCanonical (f_balance d)) (ERC404Fungible w)"

definition isDigit :: "char \<Rightarrow> bool" where
  "isDigit c = (c \<in> set ''0123456789'')"

definition richWorld :: world where
  "richWorld = emptyWorld\<lparr>ERC404Fungible :=
      [\<lparr>f_id = 0, f_address = ''0xa11ce'', f_balance = ''-3''\<rparr>,
       \<lparr>f_id = 1, f_address = ''0xb0b'', f_balance = ''12345678901234567890123''\<rparr>],
     nextId := 2\<rparr>"

section \<open>Invariants of the collections\<close>

text \<open>
  The unique index on \<^verbatim>\<open>tokenId\<close> of a holdings collection, and the freshness of the
  id counter with respect to the documents stored.
\<close>

definition uniqueTokenIds :: "holding_doc list \<Rightarrow> bool" where
  "uniqueTokenIds docs = distinct (map h_tokenId docs)"

definition idsBelow :: "nat \<Rightarrow> holding_doc list \<Rightarrow> bool" where
  "idsBelow n docs = list_all (\<lambda>d. h_id d < n) docs"

definition recordsOf :: "string \<Rightarrow> holding_doc list \<Rightarrow> holding_doc list" where
  "recordsOf tokenId docs = filter (\<lambda>d. h_tokenId d = tokenId) docs"

definition holdingsInv :: "world \<Rightarrow> bool" where
  "holdingsInv w =
     (uniqueTokenIds (ERC721Holding w) \<and> uniqueTokenIds (ERC404NFT w) \<and>
      idsBelow (nextId w) (ERC721Holding w) \<and> idsBelow (nextId w) (ERC404NFT w))"

text \<open>
  What the phases after the loop over \<^verbatim>\<open>nftTransfers\<close> do to the holdings: nothing,
  and the id counter does not go back.
\<close>

definition sameHoldings :: "world \<Rightarrow> world \<Rightarrow> bool" where
  "sameHoldings w w' =
     (ERC721Holding w' = ERC721Holding w \<and> ERC404NFT w' = ERC404NFT w \<and> nextId w \<le> nextId w')"

text \<open>
  For the minting details: unique \<^verbatim>\<open>tokenId\<close>, unique ids below the counter, and
  every stored document passes the schema's validation.
\<close>

definition mintingInv :: "world \<Rightarrow> bool" where
  "mintingInv w =
     (distinct (map m_tokenId (MintingDetails w)) \<and> distinct (map m_id (MintingDetails w)) \<and>
      list_all (\<lambda>d. m_id d < nextId w) (MintingDetails w) \<and>
      list_all minting_valid (MintingDetails w))"

text \<open>
  The records of a token, the level document pushed for a decoded level, the levels a
  token has before a log is processed, and a log that passes the checks of the per-log
  body and is decoded as the given event.
\<close>

definition mintingOf :: "string \<Rightarrow> world \<Rightarrow> minting_doc list" where
  "mintingOf tokenId w = filter (\<lambda>d. m_tokenId d = tokenId) (MintingDetails w)"

definition levelOf :: "level_args \<Rightarrow> level_doc" where
  "levelOf level =
     \<lparr>l_winAmount = natToString (lv_winAmount level), l_rollNumber = lv_rollNumber level\<rparr>"

definition levelsBefore :: "string \<Rightarrow> world \<Rightarrow> level_doc list" where
  "levelsBefore tokenId w =
     (case find (\<lambda>d. m_tokenId d = tokenId) (MintingDetails w) of
        None \<Rightarrow> []
      | Some d \<Rightarrow> m_levels d)"

definition decodesTo :: "interfaces \<Rightarrow> raw_log \<Rightarrow> decoded \<Rightarrow> bool" where
  "decodesTo ifs log ev =
     (truthy (lg_topic0 log) \<and>
      (case lg_address log of
         None \<Rightarrow> False
       | Some address \<Rightarrow>
           toLowerCase address = toLowerCase erc721Address \<or>
           toLowerCase address = toLowerCase erc404Address) \<and>
      decodeLog ifs (lg_data log) (logTopics log) = Some ev)"

section \<open>Entries of a class in \<^verbatim>\<open>nftTransfers\<close>\<close>



section \<open>Further sample inputs\<close>

definition ownedWorld :: world where
  "ownedWorld = emptyWorld\<lparr>ERC721Holding := [\<lparr>h_id = 0, h_tokenId = ''1'', h_owner = ''0xb0b''\<rparr>],
     ERC404NFT := [\<lparr>h_id = 1, h_tokenId = ''1'', h_owner = ''0xa11ce''\<rparr>], nextId := 2\<rparr>"


text \<open>
  An instance of the interfaces with roll numbers that do not fit 53 bits: marker
  \<^verbatim>\<open>0x08\<close> is a \<^verbatim>\<open>TicketMinted\<close> whose level has roll number \<open>2 ^ 53\<close>, marker
  \<^verbatim>\<open>0x09\<close> a \<^verbatim>\<open>TicketResolved\<close> whose roll result is \<open>2 ^ 53\<close>; markers
  \<^verbatim>\<open>0x01\<close> and \<^verbatim>\<open>0x03\<close> are as in the first instance.
\<close>

definition overflowInterfaces :: interfaces where
  "overflowInterfaces =
     \<lparr>parse_TicketMinted = (\<lambda>dat topics.
        if topics = [''0x01''] then ParseOk mintedSample
        else if topics = [''0x08''] then
          ParseOk \<lparr>tm_to = ''0xAbC1'', tm_tokenId = 7, tm_isETHVersion = True,
                   tm_levels = [\<lparr>lv_rollNumber = 9007199254740992, lv_winPercentage = 50,
                                 lv_winAmount = 1000\<rparr>]\<rparr>
        else ParseThrows),
      parse_TicketOpeningInitiated = (\<lambda>dat topics. ParseThrows),
      parse_TicketResolved = (\<lambda>dat topics.
        if topics = [''0x03''] then
          ParseOk \<lparr>tr_tokenId = 7, tr_rollResult = 4, tr_winAmount = 1000\<rparr>
        else if topics = [''0x09''] then
          ParseOk \<lparr>tr_tokenId = 7, tr_rollResult = 9007199254740992, tr_winAmount = 1000\<rparr>
        else ParseThrows),
      parse_RewardPaid = (\<lambda>dat topics. ParseThrows),
      parse_PoolDeposited = (\<lambda>dat topics. ParseThrows),
      parse_PoolWithdrawn = (\<lambda>dat topics. ParseThrows)\<rparr>"

section \<open>Predicates on traces\<close>

fun isSend :: "event \<Rightarrow> bool" where
  "isSend (Send i ty tok) = True"
| "isSend (MarkProcessed h) = False"

text \<open>
  The order of the specification's control flow, read on the events of one run: the
  ProcessedTransaction record is created before any frame is sent.
\<close>

fun markBeforeSends :: "event list \<Rightarrow> bool" where
  "markBeforeSends [] = True"
| "markBeforeSends (MarkProcessed h # es) = True"
| "markBeforeSends (Send i ty tok # es) = False"

section \<open>Running the model on concrete inputs\<close>

lemma lower404: "toLowerCase erc404Address = ''0x99a8374c5cf5e45151102f367ada3b47f636951c''"
  by (simp add: toLowerCase_def lowerChar_def erc404Address_def)

lemma lower721: "toLowerCase erc721Address = ''0xe64ea2215cd88a5d3cfe764bceb2c1e3c60ecfc4''"
  by (simp add: toLowerCase_def lowerChar_def erc721Address_def)

lemma addresses_configured: "erc721Address \<noteq> [] \<and> erc404Address \<noteq> []"
  by (simp add: erc404Address_def erc721Address_def)

lemma zeroAddress_nonempty: "zeroAddress \<noteq> []"
  by (simp add: zeroAddress_def)

lemma lowerB0b: "toLowerCase ''0xB0b'' = ''0xb0b''"
  by (simp add: toLowerCase_def lowerChar_def)

lemmas run_simps =
  webhook_def webhookTry_def transactionHashOf_def firstNftHash_def firstErc20Hash_def
  truthy_def listOrEmpty_def erc20TransferStep_def updateERC404FungibleBalance_def
  fungible_save_def BigInt_def StringToBigInt_def trim_def isWhiteSpace_def parseDigits_def
  digitValue_def BigInt_toString_def natToString.simps digitChar_def
  lower404 lower721 addresses_configured zeroAddress_nonempty lowerB0b
  ProcessedTransaction_create_def emptyWorld_def sampleErc20_def sampleLog_def
  sampleInterfaces_def processLog_def logBody_def decodeLog_def logTopics_def handleEvent_def
  onTicketMinted_def minting_findOrNew_def minting_save_def minting_valid_def
  broadcastUpdate_def toNumber_def updateRollAndPayout_def Opening_create_def
  nftTransferStep_def transferERC721_def transferERC404_def holding_create_def
  holding_findOneAndDelete_def sampleNft_def mintedSample_def Let_def

section \<open>Early returns of the handler\<close>

text \<open>
  C7: a body with \<^verbatim>\<open>confirmed\<close> true is answered with status 200 and the skip message,
  and the world (every collection, the id counter, the frames sent) is unchanged.
\<close>

theorem confirmed_is_skipped:
  "confirmed b \<Longrightarrow>
     webhook ifs b w = (\<lparr>status = 200, message = ''Skipped confirmed transaction''\<rparr>, w)"
  by (simp add: webhook_def webhookTry_def)

theorem confirmed_is_skipped_witness:
  "confirmed confirmedBody \<and>
   webhook sampleInterfaces confirmedBody emptyWorld =
     (\<lparr>status = 200, message = ''Skipped confirmed transaction''\<rparr>, emptyWorld)"
  using confirmed_is_skipped [of confirmedBody sampleInterfaces emptyWorld]
  by (simp add: confirmedBody_def)

text \<open>
  C9: whatever the body and the world, the handler answers with status 200; this
  includes the runs in which the \<^verbatim>\<open>try\<close> block throws.
\<close>

theorem webhook_status_200: "status (fst (webhook ifs b w)) = 200"
  by (simp add: webhook_def webhookTry_def split: prod.splits sum.splits option.splits)

theorem webhook_status_200_witness:
  "fst (webhookTry sampleInterfaces failingBody emptyWorld) = Inl SyntaxError \<and>
   status (fst (webhook sampleInterfaces failingBody emptyWorld)) = 200"
  using webhook_status_200 [of sampleInterfaces failingBody emptyWorld]
  by (simp add: failingBody_def run_simps)

text \<open>
  C10: when \<^verbatim>\<open>confirmed\<close> is false and neither the first NFT transfer nor the first
  ERC20 transfer carries a transaction hash, the handler answers 200 with
  \<^verbatim>\<open>No transaction hash found\<close> and leaves the world unchanged, whatever the logs
  and the interfaces are: no log is decoded or applied.
\<close>

theorem no_hash_is_skipped:
  "\<not> confirmed b \<Longrightarrow> \<not> truthy (firstNftHash b) \<Longrightarrow> \<not> truthy (firstErc20Hash b) \<Longrightarrow>
     webhook ifs b w = (\<lparr>status = 200, message = ''No transaction hash found''\<rparr>, w)"
  by (simp add: webhook_def webhookTry_def transactionHashOf_def truthy_def split: option.splits)

theorem no_hash_is_skipped_witness:
  "\<not> confirmed noHashBody \<and> \<not> truthy (firstNftHash noHashBody) \<and>
   \<not> truthy (firstErc20Hash noHashBody) \<and> logs noHashBody \<noteq> None \<and>
   webhook sampleInterfaces noHashBody emptyWorld =
     (\<lparr>status = 200, message = ''No transaction hash found''\<rparr>, emptyWorld)"
  using no_hash_is_skipped [of noHashBody sampleInterfaces emptyWorld]
  by (simp add: noHashBody_def firstNftHash_def firstErc20Hash_def truthy_def sampleErc20_def)

section \<open>What each phase of the handler leaves alone\<close>

text \<open>
  The two transfer loops write neither the ProcessedTransaction collection nor the trace;
  the loop over the logs leaves the collection alone and appends only frames sent.
\<close>

lemma fungible_save_frame:
  "fungible_save isNew d w = (r, w') \<Longrightarrow>
     ProcessedTransaction w' = ProcessedTransaction w \<and> trace w' = trace w"
  by (auto simp: fungible_save_def split: if_splits)

lemma updateERC404FungibleBalance_frame:
  "updateERC404FungibleBalance a v add w = (r, w') \<Longrightarrow>
     ProcessedTransaction w' = ProcessedTransaction w \<and> trace w' = trace w"
  by (auto simp: updateERC404FungibleBalance_def Let_def
      split: option.splits sum.splits prod.splits dest: fungible_save_frame)

lemma erc20TransferStep_frame:
  "erc20TransferStep t w = (r, w') \<Longrightarrow>
     ProcessedTransaction w' = ProcessedTransaction w \<and> trace w' = trace w"
  by (auto simp: erc20TransferStep_def
      split: option.splits if_splits prod.splits dest!: updateERC404FungibleBalance_frame)

lemma erc20TransfersLoop_frame:
  "erc20TransfersLoop ts w = (r, w') \<Longrightarrow>
     ProcessedTransaction w' = ProcessedTransaction w \<and> trace w' = trace w"
proof (induction ts arbitrary: w)
  case Nil
  then show ?case by simp
next
  case (Cons t ts)
  obtain r1 w1 where s: "erc20TransferStep t w = (r1, w1)" by (cases "erc20TransferStep t w")
  show ?case
  proof (cases r1)
    case None
    with Cons.prems s have "erc20TransfersLoop ts w1 = (r, w')" by simp
    from Cons.IH [OF this] erc20TransferStep_frame [OF s] show ?thesis by simp
  next
    case (Some e)
    with Cons.prems s have "w' = w1" by simp
    with erc20TransferStep_frame [OF s] show ?thesis by simp
  qed
qed

lemma transferERC721_frame:
  "transferERC721 tid f t w = (r, w') \<Longrightarrow>
     ProcessedTransaction w' = ProcessedTransaction w \<and> trace w' = trace w"
  by (auto simp: transferERC721_def Let_def split: sum.splits if_splits)

lemma transferERC404_frame:
  "transferERC404 tid f t w = (r, w') \<Longrightarrow>
     ProcessedTransaction w' = ProcessedTransaction w \<and> trace w' = trace w"
  by (auto simp: transferERC404_def Let_def split: sum.splits if_splits)

lemma nftTransferStep_frame:
  "nftTransferStep seen t w = (r, w') \<Longrightarrow>
     ProcessedTransaction w' = ProcessedTransaction w \<and> trace w' = trace w"
  by (auto simp: nftTransferStep_def
      split: option.splits if_splits prod.splits
      dest: transferERC721_frame transferERC404_frame)

lemma nftTransfersLoop_frame:
  "nftTransfersLoop seen ts w = (r, w') \<Longrightarrow>
     ProcessedTransaction w' = ProcessedTransaction w \<and> trace w' = trace w"
proof (induction ts arbitrary: w seen)
  case Nil
  then show ?case by simp
next
  case (Cons t ts)
  obtain r1 w1 where s: "nftTransferStep seen t w = (r1, w1)" by (cases "nftTransferStep seen t w")
  show ?case
  proof (cases r1)
    case (Inr seen1)
    with Cons.prems s have "nftTransfersLoop seen1 ts w1 = (r, w')" by simp
    from Cons.IH [OF this] nftTransferStep_frame [OF s] show ?thesis by simp
  next
    case (Inl e)
    with Cons.prems s have "w' = w1" by simp
    with nftTransferStep_frame [OF s] show ?thesis by simp
  qed
qed

lemma list_all_isSend_map [simp]: "list_all isSend (map (\<lambda>i. Send i ty tok) xs)"
  by (simp add: list_all_iff)

lemma broadcastUpdate_trace:
  "ProcessedTransaction (broadcastUpdate ty tok w) = ProcessedTransaction w \<and>
   (\<exists>es. trace (broadcastUpdate ty tok w) = trace w @ es \<and> list_all isSend es)"
  by (simp add: broadcastUpdate_def list_all_iff)

lemma minting_save_frame:
  "minting_save isNew d w = (r, w') \<Longrightarrow>
     ProcessedTransaction w' = ProcessedTransaction w \<and> trace w' = trace w"
  by (auto simp: minting_save_def split: if_splits)

lemma Opening_create_frame:
  "Opening_create tid op h ty w = (r, w') \<Longrightarrow>
     ProcessedTransaction w' = ProcessedTransaction w \<and> trace w' = trace w"
  by (auto simp: Opening_create_def split: if_splits)

lemma onTicketMinted_trace:
  "onTicketMinted h a w = (r, w') \<Longrightarrow>
     ProcessedTransaction w' = ProcessedTransaction w \<and>
     (\<exists>es. trace w' = trace w @ es \<and> list_all isSend es)"
  by (auto simp: onTicketMinted_def Let_def broadcastUpdate_def
      split: sum.splits prod.splits option.splits dest!: minting_save_frame)

lemma updateRollAndPayout_trace:
  "updateRollAndPayout h tid rr win w = (r, w') \<Longrightarrow>
     ProcessedTransaction w' = ProcessedTransaction w \<and>
     (\<exists>es. trace w' = trace w @ es \<and> list_all isSend es)"
  by (auto simp: updateRollAndPayout_def Let_def broadcastUpdate_def
      split: sum.splits prod.splits option.splits dest!: minting_save_frame)

lemma handleEvent_trace:
  "handleEvent h ty ev w = (r, w') \<Longrightarrow>
     ProcessedTransaction w' = ProcessedTransaction w \<and>
     (\<exists>es. trace w' = trace w @ es \<and> list_all isSend es)"
  by (cases ev)
     (auto simp: handleEvent_def split: sum.splits
       dest: onTicketMinted_trace updateRollAndPayout_trace Opening_create_frame)

lemma processLog_trace:
  "ProcessedTransaction (processLog ifs h log w) = ProcessedTransaction w \<and>
   (\<exists>es. trace (processLog ifs h log w) = trace w @ es \<and> list_all isSend es)"
proof -
  obtain r w' where b: "logBody ifs h log w = (r, w')" by (cases "logBody ifs h log w")
  then have "ProcessedTransaction w' = ProcessedTransaction w \<and>
     (\<exists>es. trace w' = trace w @ es \<and> list_all isSend es)"
    by (auto simp: logBody_def split: if_splits option.splits dest: handleEvent_trace)
  with b show ?thesis by (simp add: processLog_def)
qed

lemma logsLoop_trace:
  "ProcessedTransaction (logsLoop ifs h ls w) = ProcessedTransaction w \<and>
   (\<exists>es. trace (logsLoop ifs h ls w) = trace w @ es \<and> list_all isSend es)"
proof (induction ls arbitrary: w)
  case Nil
  then show ?case by simp
next
  case (Cons l ls)
  from processLog_trace [of ifs h l w] obtain es1 where
    p: "ProcessedTransaction (processLog ifs h l w) = ProcessedTransaction w"
       "trace (processLog ifs h l w) = trace w @ es1" "list_all isSend es1" by blast
  from Cons.IH [of "processLog ifs h l w"] obtain es2 where
    q: "ProcessedTransaction (logsLoop ifs h ls (processLog ifs h l w)) =
          ProcessedTransaction (processLog ifs h l w)"
       "trace (logsLoop ifs h ls (processLog ifs h l w)) = trace (processLog ifs h l w) @ es2"
       "list_all isSend es2" by blast
  have "trace (logsLoop ifs h (l # ls) w) = trace w @ (es1 @ es2)"
    using p q by simp
  moreover have "list_all isSend (es1 @ es2)"
    using p q by simp
  moreover have "ProcessedTransaction (logsLoop ifs h (l # ls) w) = ProcessedTransaction w"
    using p q by simp
  ultimately show ?case by blast
qed

lemma ProcessedTransaction_create_ok:
  "ProcessedTransaction_create h w0 = (None, w1) \<Longrightarrow>
     w1 = w0\<lparr>ProcessedTransaction :=
              ProcessedTransaction w0 @ [\<lparr>t_id = nextId w0, t_transactionHash = h\<rparr>],
            nextId := Suc (nextId w0),
            trace := trace w0 @ [MarkProcessed h]\<rparr>"
  by (auto simp: ProcessedTransaction_create_def split: if_splits)

lemma webhookTry_success:
  assumes "webhookTry ifs b w = (Inr r, w1)" and "message r = ''Holdings updated successfully''"
  shows "\<exists>h w0. \<not> confirmed b \<and> transactionHashOf b = Some h \<and> h \<noteq> [] \<and>
           find (\<lambda>d. t_transactionHash d = h) (ProcessedTransaction w) = None \<and>
           ProcessedTransaction w0 = ProcessedTransaction w \<and>
           (\<exists>es. trace w0 = trace w @ es \<and> list_all isSend es) \<and>
           ProcessedTransaction_create h w0 = (None, w1)"
proof -
  from assms have nc: "\<not> confirmed b"
    by (auto simp: webhookTry_def)
  from assms nc obtain h where h: "transactionHashOf b = Some h" "h \<noteq> []"
    by (auto simp: webhookTry_def split: option.splits if_splits)
  from assms nc h have unseen:
    "find (\<lambda>d. t_transactionHash d = h) (ProcessedTransaction w) = None"
    by (auto simp: webhookTry_def split: if_splits)
  from assms nc h unseen obtain seen wa where
    a: "nftTransfersLoop {} (listOrEmpty (nftTransfers b)) w = (Inr seen, wa)"
    by (auto simp: webhookTry_def split: if_splits prod.splits sum.splits)
  from assms nc h unseen a obtain wb where
    b: "erc20TransfersLoop (listOrEmpty (erc20Transfers b)) wa = (None, wb)"
    by (auto simp: webhookTry_def split: if_splits prod.splits option.splits)
  define w0 where "w0 = logsLoop ifs h (listOrEmpty (logs b)) wb"
  from assms nc h unseen a b have c: "ProcessedTransaction_create h w0 = (None, w1)"
    by (auto simp: webhookTry_def w0_def split: if_splits prod.splits option.splits)
  from nftTransfersLoop_frame [OF a] erc20TransfersLoop_frame [OF b]
  have f: "ProcessedTransaction wb = ProcessedTransaction w" "trace wb = trace w" by simp_all
  from logsLoop_trace [of ifs h "listOrEmpty (logs b)" wb] f
  have "ProcessedTransaction w0 = ProcessedTransaction w \<and>
        (\<exists>es. trace w0 = trace w @ es \<and> list_all isSend es)"
    by (simp add: w0_def)
  with nc h unseen c show ?thesis by blast
qed

lemma webhookTry_early:
  assumes "webhookTry ifs b w = (Inr r, w1)" and "message r \<noteq> ''Holdings updated successfully''"
  shows "w1 = w"
  using assms
  by (auto simp: webhookTry_def split: if_splits option.splits prod.splits sum.splits)

lemma webhook_of_try: "webhookTry ifs b w = (Inr r, w1) \<Longrightarrow> webhook ifs b w = (r, w1)"
  by (simp add: webhook_def)

lemma webhook_success_try:
  "webhook ifs b w = (r, w1) \<Longrightarrow> message r = ''Holdings updated successfully'' \<Longrightarrow>
     webhookTry ifs b w = (Inr r, w1)"
  by (auto simp: webhook_def split: prod.splits sum.splits)

section \<open>Redelivery of a webhook\<close>

text \<open>
  The guard: when the transaction hash of the body has a ProcessedTransaction record,
  the handler returns before any update.
\<close>

lemma already_processed_is_skipped:
  assumes "\<not> confirmed b" and "transactionHashOf b = Some h" and "h \<noteq> []"
    and "find (\<lambda>d. t_transactionHash d = h) (ProcessedTransaction w) \<noteq> None"
  shows "webhook ifs b w = (\<lparr>status = 200, message = ''Transaction already processed''\<rparr>, w)"
  using assms by (simp add: webhook_def webhookTry_def)

text \<open>
  C1: when the first processing of a body ends without an error reaching the top-level
  \<^verbatim>\<open>catch\<close>, processing the same body again changes nothing. When the first
  processing ran to the end, the second is answered \<^verbatim>\<open>Transaction already processed\<close>,
  and the transaction hash, which had no ProcessedTransaction record before, has
  exactly one afterwards.
\<close>

theorem redelivery_changes_nothing:
  assumes "webhookTry ifs b w = (Inr r, w1)"
  shows "snd (webhook ifs b w1) = w1 \<and>
         (message r = ''Holdings updated successfully'' \<longrightarrow>
            webhook ifs b w1 = (\<lparr>status = 200, message = ''Transaction already processed''\<rparr>, w1) \<and>
            (\<exists>h. transactionHashOf b = Some h \<and>
                 length (filter (\<lambda>d. t_transactionHash d = h) (ProcessedTransaction w)) = 0 \<and>
                 length (filter (\<lambda>d. t_transactionHash d = h) (ProcessedTransaction w1)) = 1))"
proof (cases "message r = ''Holdings updated successfully''")
  case False
  with assms have "w1 = w" by (rule webhookTry_early)
  with assms have "webhook ifs b w1 = (r, w1)" by (simp add: webhook_of_try)
  with False show ?thesis by simp
next
  case True
  from webhookTry_success [OF assms True] obtain h w0 where
    s: "\<not> confirmed b" "transactionHashOf b = Some h" "h \<noteq> []"
       "find (\<lambda>d. t_transactionHash d = h) (ProcessedTransaction w) = None"
       "ProcessedTransaction w0 = ProcessedTransaction w"
       "ProcessedTransaction_create h w0 = (None, w1)" by blast
  from ProcessedTransaction_create_ok [OF s(6)] s(5)
  have pt: "ProcessedTransaction w1 =
              ProcessedTransaction w @ [\<lparr>t_id = nextId w0, t_transactionHash = h\<rparr>]"
    by simp
  then have found: "find (\<lambda>d. t_transactionHash d = h) (ProcessedTransaction w1) \<noteq> None"
    by (auto simp: find_None_iff)
  with s have again:
    "webhook ifs b w1 = (\<lparr>status = 200, message = ''Transaction already processed''\<rparr>, w1)"
    by (intro already_processed_is_skipped) simp_all
  from s(4) have zero:
    "filter (\<lambda>d. t_transactionHash d = h) (ProcessedTransaction w) = []"
    by (simp add: find_None_iff filter_empty_conv)
  with pt have one:
    "length (filter (\<lambda>d. t_transactionHash d = h) (ProcessedTransaction w1)) = 1"
    by simp
  from again zero one s(2) show ?thesis by simp
qed

theorem redelivery_changes_nothing_witness:
  "fst (webhookTry sampleInterfaces mintBody emptyWorld) =
     Inr \<lparr>status = 200, message = ''Holdings updated successfully''\<rparr> \<and>
   snd (webhook sampleInterfaces mintBody (snd (webhookTry sampleInterfaces mintBody emptyWorld))) =
     snd (webhookTry sampleInterfaces mintBody emptyWorld) \<and>
   webhook sampleInterfaces mintBody (snd (webhookTry sampleInterfaces mintBody emptyWorld)) =
     (\<lparr>status = 200, message = ''Transaction already processed''\<rparr>,
      snd (webhookTry sampleInterfaces mintBody emptyWorld)) \<and>
   map t_transactionHash
     (ProcessedTransaction (snd (webhookTry sampleInterfaces mintBody emptyWorld))) = [''0xh1'']"
proof -
  have run: "fst (webhookTry sampleInterfaces mintBody emptyWorld) =
     Inr \<lparr>status = 200, message = ''Holdings updated successfully''\<rparr>"
    by (simp add: mintBody_def run_simps)
  then have "webhookTry sampleInterfaces mintBody emptyWorld =
     (Inr \<lparr>status = 200, message = ''Holdings updated successfully''\<rparr>,
      snd (webhookTry sampleInterfaces mintBody emptyWorld))"
    by (simp add: prod_eq_iff)
  from redelivery_changes_nothing [OF this]
  have "snd (webhook sampleInterfaces mintBody (snd (webhookTry sampleInterfaces mintBody emptyWorld))) =
     snd (webhookTry sampleInterfaces mintBody emptyWorld)"
   and "webhook sampleInterfaces mintBody (snd (webhookTry sampleInterfaces mintBody emptyWorld)) =
     (\<lparr>status = 200, message = ''Transaction already processed''\<rparr>,
      snd (webhookTry sampleInterfaces mintBody emptyWorld))"
    by simp_all
  moreover have "map t_transactionHash
     (ProcessedTransaction (snd (webhookTry sampleInterfaces mintBody emptyWorld))) = [''0xh1'']"
    by (simp add: mintBody_def run_simps)
  ultimately show ?thesis using run by simp
qed

text \<open>
  The claim does not hold for every body: when the second ERC20 transfer carries a value
  that \<^verbatim>\<open>BigInt\<close> rejects, the first transfer is applied, the error reaches the
  top-level \<^verbatim>\<open>catch\<close>, no ProcessedTransaction record is written, and a second
  delivery credits the first transfer again.
\<close>

theorem redelivery_counterexample:
  "find (\<lambda>d. t_transactionHash d = ''0xh1'') (ProcessedTransaction emptyWorld) = None \<and>
   transactionHashOf failingBody = Some ''0xh1'' \<and>
   map f_balance (ERC404Fungible (snd (webhook sampleInterfaces failingBody emptyWorld))) = [''5''] \<and>
   map f_balance (ERC404Fungible (snd (webhook sampleInterfaces failingBody
      (snd (webhook sampleInterfaces failingBody emptyWorld))))) = [''10'']"
  by (simp add: failingBody_def run_simps)

section \<open>Order of the notification and the idempotency marker\<close>

text \<open>
  C8: in a run that ends with \<^verbatim>\<open>Holdings updated successfully\<close>, every frame is sent
  before the ProcessedTransaction record of the transaction hash is created: the events
  of the run are frames only, followed by the creation of the record, and the hash had
  no record when the run started.
\<close>

theorem frames_precede_mark:
  assumes "webhook ifs b w = (r, w1)" and "message r = ''Holdings updated successfully''"
  shows "\<exists>h sends.
           transactionHashOf b = Some h \<and>
           find (\<lambda>d. t_transactionHash d = h) (ProcessedTransaction w) = None \<and>
           list_all isSend sends \<and>
           trace w1 = trace w @ sends @ [MarkProcessed h] \<and>
           find (\<lambda>d. t_transactionHash d = h) (ProcessedTransaction w1) \<noteq> None"
proof -
  from assms have t: "webhookTry ifs b w = (Inr r, w1)" by (rule webhook_success_try)
  from webhookTry_success [OF t assms(2)] obtain h w0 es where
    s: "transactionHashOf b = Some h"
       "find (\<lambda>d. t_transactionHash d = h) (ProcessedTransaction w) = None"
       "trace w0 = trace w @ es" "list_all isSend es"
       "ProcessedTransaction_create h w0 = (None, w1)" by blast
  from ProcessedTransaction_create_ok [OF s(5)] s(3)
  have "trace w1 = trace w @ es @ [MarkProcessed h]"
    and "find (\<lambda>d. t_transactionHash d = h) (ProcessedTransaction w1) \<noteq> None"
    by (auto simp: find_None_iff)
  with s show ?thesis by blast
qed

theorem frames_precede_mark_witness:
  "message (fst (webhook sampleInterfaces mintBody emptyWorld)) = ''Holdings updated successfully'' \<and>
   (\<exists>h sends.
      transactionHashOf mintBody = Some h \<and>
      find (\<lambda>d. t_transactionHash d = h) (ProcessedTransaction emptyWorld) = None \<and>
      list_all isSend sends \<and>
      trace (snd (webhook sampleInterfaces mintBody emptyWorld)) =
        trace emptyWorld @ sends @ [MarkProcessed h] \<and>
      find (\<lambda>d. t_transactionHash d = h)
        (ProcessedTransaction (snd (webhook sampleInterfaces mintBody emptyWorld))) \<noteq> None)"
proof -
  have m: "message (fst (webhook sampleInterfaces mintBody emptyWorld)) =
             ''Holdings updated successfully''"
    by (simp add: mintBody_def run_simps)
  have "webhook sampleInterfaces mintBody emptyWorld =
          (fst (webhook sampleInterfaces mintBody emptyWorld),
           snd (webhook sampleInterfaces mintBody emptyWorld))"
    by simp
  from frames_precede_mark [OF this m] m show ?thesis by simp
qed

text \<open>
  A run on one \<^verbatim>\<open>TicketMinted\<close> log sends the frame to the connected client first and
  creates the record afterwards.
\<close>

theorem frames_precede_mark_counterexample:
  "message (fst (webhook sampleInterfaces mintBody emptyWorld)) = ''Holdings updated successfully'' \<and>
   trace (snd (webhook sampleInterfaces mintBody emptyWorld)) =
     [Send 0 ''MINTING_DETAILS_UPDATED'' ''7'', MarkProcessed ''0xh1''] \<and>
   \<not> markBeforeSends (trace (snd (webhook sampleInterfaces mintBody emptyWorld)))"
  by (simp add: mintBody_def run_simps)

section \<open>Priority of the decoder\<close>

lemma processLog_undecoded:
  "decodeLog ifs (lg_data log) (logTopics log) = None \<Longrightarrow> processLog ifs h log w = w"
  by (simp add: processLog_def logBody_def split: option.splits)

text \<open>
  C4: the six interfaces are tried in the order TicketMinted, TicketOpeningInitiated,
  TicketResolved, RewardPaid, PoolDeposited, PoolWithdrawn, and the first that parses
  names the event; in particular a log that the TicketMinted interface parses is
  classified as TicketMinted, whatever the later interfaces would say. When all six
  throw, the log is not decoded, processing it leaves the world unchanged, and the loop
  goes on with the next log.
\<close>

theorem decodeLog_priority:
  fixes log :: raw_log
  defines "d \<equiv> lg_data log" and "ts \<equiv> logTopics log"
  shows
  "(parse_TicketMinted ifs d ts = ParseOk a1 \<longrightarrow> decodeLog ifs d ts = Some (TicketMinted a1)) \<and>
   (parse_TicketMinted ifs d ts = ParseThrows \<and>
    parse_TicketOpeningInitiated ifs d ts = ParseOk a2 \<longrightarrow>
      decodeLog ifs d ts = Some (TicketOpeningInitiated a2)) \<and>
   (parse_TicketMinted ifs d ts = ParseThrows \<and>
    parse_TicketOpeningInitiated ifs d ts = ParseThrows \<and>
    parse_TicketResolved ifs d ts = ParseOk a3 \<longrightarrow>
      decodeLog ifs d ts = Some (TicketResolved a3)) \<and>
   (parse_TicketMinted ifs d ts = ParseThrows \<and>
    parse_TicketOpeningInitiated ifs d ts = ParseThrows \<and>
    parse_TicketResolved ifs d ts = ParseThrows \<and>
    parse_RewardPaid ifs d ts = ParseOk a4 \<longrightarrow>
      decodeLog ifs d ts = Some (RewardPaid a4)) \<and>
   (parse_TicketMinted ifs d ts = ParseThrows \<and>
    parse_TicketOpeningInitiated ifs d ts = ParseThrows \<and>
    parse_TicketResolved ifs d ts = ParseThrows \<and>
    parse_RewardPaid ifs d ts = ParseThrows \<and>
    parse_PoolDeposited ifs d ts = ParseOk a5 \<longrightarrow>
      decodeLog ifs d ts = Some (PoolDeposited a5)) \<and>
   (parse_TicketMinted ifs d ts = ParseThrows \<and>
    parse_TicketOpeningInitiated ifs d ts = ParseThrows \<and>
    parse_TicketResolved ifs d ts = ParseThrows \<and>
    parse_RewardPaid ifs d ts = ParseThrows \<and>
    parse_PoolDeposited ifs d ts = ParseThrows \<and>
    parse_PoolWithdrawn ifs d ts = ParseOk a6 \<longrightarrow>
      decodeLog ifs d ts = Some (PoolWithdrawn a6)) \<and>
   (parse_TicketMinted ifs d ts = ParseThrows \<and>
    parse_TicketOpeningInitiated ifs d ts = ParseThrows \<and>
    parse_TicketResolved ifs d ts = ParseThrows \<and>
    parse_RewardPaid ifs d ts = ParseThrows \<and>
    parse_PoolDeposited ifs d ts = ParseThrows \<and>
    parse_PoolWithdrawn ifs d ts = ParseThrows \<longrightarrow>
      decodeLog ifs d ts = None \<and> processLog ifs h log w = w \<and>
      logsLoop ifs h (log # rest) w = logsLoop ifs h rest w)"
  using processLog_undecoded [of ifs log h w]
  by (simp add: decodeLog_def d_def ts_def)

theorem decodeLog_priority_witness:
  "decodeLog sampleInterfaces (lg_data (sampleLog ''0x01'')) (logTopics (sampleLog ''0x01'')) =
     Some (TicketMinted mintedSample) \<and>
   parse_TicketResolved sampleInterfaces (lg_data (sampleLog ''0x01'')) (logTopics (sampleLog ''0x01'')) =
     ParseOk \<lparr>tr_tokenId = 7, tr_rollResult = 4, tr_winAmount = 1000\<rparr> \<and>
   decodeLog sampleInterfaces (lg_data (sampleLog ''0x02'')) (logTopics (sampleLog ''0x02'')) =
     Some (TicketOpeningInitiated \<lparr>oi_tokenId = 7, oi_opener = ''0xAbC1''\<rparr>) \<and>
   decodeLog sampleInterfaces (lg_data (sampleLog ''0x03'')) (logTopics (sampleLog ''0x03'')) =
     Some (TicketResolved \<lparr>tr_tokenId = 7, tr_rollResult = 4, tr_winAmount = 1000\<rparr>) \<and>
   decodeLog sampleInterfaces (lg_data (sampleLog ''0x04'')) (logTopics (sampleLog ''0x04'')) =
     Some (RewardPaid \<lparr>rp_winner = ''0xAbC1'', rp_tokenId = 7, rp_amount = 1000\<rparr>) \<and>
   decodeLog sampleInterfaces (lg_data (sampleLog ''0x05'')) (logTopics (sampleLog ''0x05'')) =
     Some (PoolDeposited \<lparr>pd_depositor = ''0xAbC1'', pd_amount = 9\<rparr>) \<and>
   decodeLog sampleInterfaces (lg_data (sampleLog ''0x06'')) (logTopics (sampleLog ''0x06'')) =
     Some (PoolWithdrawn \<lparr>pw_withdrawer = ''0xAbC1'', pw_amount = 9\<rparr>) \<and>
   decodeLog sampleInterfaces (lg_data (sampleLog ''0x07'')) (logTopics (sampleLog ''0x07'')) = None \<and>
   processLog sampleInterfaces ''0xh1'' (sampleLog ''0x07'') emptyWorld = emptyWorld"
proof -
  note ev = sampleInterfaces_def sampleLog_def logTopics_def mintedSample_def
  have r: "parse_TicketResolved sampleInterfaces (lg_data (sampleLog ''0x01'')) (logTopics (sampleLog ''0x01'')) =
     ParseOk \<lparr>tr_tokenId = 7, tr_rollResult = 4, tr_winAmount = 1000\<rparr>"
    by (simp add: ev)
  from decodeLog_priority [where ifs = sampleInterfaces and log = "sampleLog ''0x01''"]
  have d1: "decodeLog sampleInterfaces (lg_data (sampleLog ''0x01'')) (logTopics (sampleLog ''0x01'')) =
     Some (TicketMinted mintedSample)"
    by (simp add: ev)
  from decodeLog_priority [where ifs = sampleInterfaces and log = "sampleLog ''0x02''"]
  have d2: "decodeLog sampleInterfaces (lg_data (sampleLog ''0x02'')) (logTopics (sampleLog ''0x02'')) =
     Some (TicketOpeningInitiated \<lparr>oi_tokenId = 7, oi_opener = ''0xAbC1''\<rparr>)"
    by (simp add: ev)
  from decodeLog_priority [where ifs = sampleInterfaces and log = "sampleLog ''0x03''"]
  have d3: "decodeLog sampleInterfaces (lg_data (sampleLog ''0x03'')) (logTopics (sampleLog ''0x03'')) =
     Some (TicketResolved \<lparr>tr_tokenId = 7, tr_rollResult = 4, tr_winAmount = 1000\<rparr>)"
    by (simp add: ev)
  from decodeLog_priority [where ifs = sampleInterfaces and log = "sampleLog ''0x04''"]
  have d4: "decodeLog sampleInterfaces (lg_data (sampleLog ''0x04'')) (logTopics (sampleLog ''0x04'')) =
     Some (RewardPaid \<lparr>rp_winner = ''0xAbC1'', rp_tokenId = 7, rp_amount = 1000\<rparr>)"
    by (simp add: ev)
  from decodeLog_priority [where ifs = sampleInterfaces and log = "sampleLog ''0x05''"]
  have d5: "decodeLog sampleInterfaces (lg_data (sampleLog ''0x05'')) (logTopics (sampleLog ''0x05'')) =
     Some (PoolDeposited \<lparr>pd_depositor = ''0xAbC1'', pd_amount = 9\<rparr>)"
    by (simp add: ev)
  from decodeLog_priority [where ifs = sampleInterfaces and log = "sampleLog ''0x06''"]
  have d6: "decodeLog sampleInterfaces (lg_data (sampleLog ''0x06'')) (logTopics (sampleLog ''0x06'')) =
     Some (PoolWithdrawn \<lparr>pw_withdrawer = ''0xAbC1'', pw_amount = 9\<rparr>)"
    by (simp add: ev)
  from decodeLog_priority [where ifs = sampleInterfaces and log = "sampleLog ''0x07''"
      and h = "''0xh1''" and w = emptyWorld]
  have d7: "decodeLog sampleInterfaces (lg_data (sampleLog ''0x07'')) (logTopics (sampleLog ''0x07'')) = None"
    and p7: "processLog sampleInterfaces ''0xh1'' (sampleLog ''0x07'') emptyWorld = emptyWorld"
    by (simp_all add: ev)
  from r d1 d2 d3 d4 d5 d6 d7 p7 show ?thesis by simp
qed

section \<open>Decimal strings\<close>

lemma below_ten: "d < 10 \<Longrightarrow> d \<in> set [0, 1, 2, 3, 4, 5, 6, 7, 8, 9 :: nat]"
  by (simp del: One_nat_def) arith

lemma digitValue_digitChar_all:
  "list_all (\<lambda>d. digitValue (digitChar d) = Some d) [0, 1, 2, 3, 4, 5, 6, 7, 8, 9]"
  by (simp add: digitValue_def digitChar_def)

lemma digitValue_digitChar: "d < 10 \<Longrightarrow> digitValue (digitChar d) = Some d"
  using digitValue_digitChar_all below_ten [of d] unfolding list_all_iff by blast

lemma isDigit_digitChar_all: "list_all (\<lambda>d. isDigit (digitChar d)) [0, 1, 2, 3, 4, 5, 6, 7, 8, 9]"
  by (simp add: isDigit_def digitChar_def)

lemma isDigit_digitChar: "d < 10 \<Longrightarrow> isDigit (digitChar d)"
  using isDigit_digitChar_all below_ten [of d] unfolding list_all_iff by blast

lemma isDigit_plain:
  "isDigit c \<Longrightarrow> \<not> isWhiteSpace c \<and> c \<noteq> CHR ''+'' \<and> c \<noteq> CHR ''-'' \<and> c \<notin> set ''xXoObB''"
  by (auto simp: isDigit_def isWhiteSpace_def)

lemma natToString_digits: "list_all isDigit (natToString n)"
proof (induction n rule: natToString.induct)
  case (1 n)
  show ?case
  proof (cases "n < 10")
    case True
    then show ?thesis by (subst natToString.simps) (simp add: isDigit_digitChar)
  next
    case False
    with 1 have "list_all isDigit (natToString (n div 10))" by simp
    moreover have "isDigit (digitChar (n mod 10))"
      by (simp add: isDigit_digitChar)
    ultimately show ?thesis using False by (subst natToString.simps) simp
  qed
qed

lemma natToString_nonempty: "natToString n \<noteq> []"
  by (subst natToString.simps) simp

lemma digitsValue_snoc:
  "digitsValue b acc (xs @ [c]) =
     (case digitsValue b acc xs of
        None \<Rightarrow> None
      | Some v \<Rightarrow> (case digitValue c of None \<Rightarrow> None | Some d \<Rightarrow> if d < b then Some (v * b + d) else None))"
  by (induction xs arbitrary: acc) (auto split: option.splits)

lemma digitsValue_natToString: "digitsValue 10 0 (natToString n) = Some n"
proof (induction n rule: natToString.induct)
  case (1 n)
  show ?case
  proof (cases "n < 10")
    case True
    then show ?thesis by (subst natToString.simps) (simp add: digitValue_digitChar)
  next
    case False
    with 1 have "digitsValue 10 0 (natToString (n div 10)) = Some (n div 10)" by simp
    then show ?thesis using False
      by (subst natToString.simps) (simp add: digitsValue_snoc digitValue_digitChar)
  qed
qed

lemma trim_plain:
  assumes "xs \<noteq> []" and "\<not> isWhiteSpace (hd xs)" and "\<not> isWhiteSpace (last xs)"
  shows "trim xs = xs"
proof -
  from assms have a: "dropWhile isWhiteSpace xs = xs" by (cases xs) auto
  from assms have "rev xs \<noteq> []" "\<not> isWhiteSpace (hd (rev xs))" by (simp_all add: hd_rev)
  then have "dropWhile isWhiteSpace (rev xs) = rev xs" by (cases "rev xs") auto
  with a show ?thesis by (simp add: trim_def)
qed

lemma StringToBigInt_natToString: "StringToBigInt (natToString n) = Some (int n)"
proof -
  obtain c cs where s: "natToString n = c # cs"
    using natToString_nonempty [of n] by (cases "natToString n") auto
  from natToString_digits [of n] s have dc: "isDigit c" and dcs: "list_all isDigit cs" by simp_all
  have dl: "isDigit (last (c # cs))"
    using dc dcs by (cases cs rule: rev_cases) (auto)
  have t: "trim (c # cs) = c # cs"
    using dc dl by (intro trim_plain) (auto dest: isDigit_plain)
  have nothd: "cs \<noteq> [] \<Longrightarrow> hd cs \<notin> set ''xXoObB''"
    using dcs by (cases cs) (auto dest: isDigit_plain)
  from isDigit_plain [OF dc] have c: "c \<noteq> CHR ''+''" "c \<noteq> CHR ''-''" by simp_all
  have "parseDigits 10 (c # cs) = Some n"
    using digitsValue_natToString [of n] s by (simp add: parseDigits_def)
  with t c nothd show ?thesis
    unfolding StringToBigInt_def s by (auto simp del: digitsValue.simps)
qed

lemma StringToBigInt_minus: "StringToBigInt (CHR ''-'' # natToString n) = Some (- int n)"
proof -
  have ne: "natToString n \<noteq> []" by (rule natToString_nonempty)
  have "isDigit (last (natToString n))"
    using natToString_digits [of n] ne by (cases "natToString n" rule: rev_cases) auto
  then have "\<not> isWhiteSpace (last (CHR ''-'' # natToString n))"
    using ne by (auto dest: isDigit_plain)
  then have t: "trim (CHR ''-'' # natToString n) = CHR ''-'' # natToString n"
    by (intro trim_plain) (auto simp: isWhiteSpace_def)
  have "parseDigits 10 (natToString n) = Some n"
    using digitsValue_natToString [of n] ne by (simp add: parseDigits_def)
  with t show ?thesis
    unfolding StringToBigInt_def by simp
qed

lemma BigInt_toString_inverse: "BigInt (BigInt_toString i) = Inr i"
proof (cases "i < 0")
  case True
  then show ?thesis
    by (simp add: BigInt_def BigInt_toString_def StringToBigInt_minus)
next
  case False
  then show ?thesis
    by (simp add: BigInt_def BigInt_toString_def StringToBigInt_natToString)
qed

lemma isCanonical_toString: "isCanonical (BigInt_toString i)"
  using BigInt_toString_inverse [of i]
  by (auto simp: isCanonical_def BigInt_def split: option.splits)

lemma isCanonical_BigInt: "isCanonical s \<Longrightarrow> \<exists>i. BigInt s = Inr i \<and> BigInt_toString i = s"
  by (auto simp: isCanonical_def BigInt_def split: option.splits)

section \<open>Fungible balances\<close>

lemma find_map_replace:
  "find P xs = Some d \<Longrightarrow> P d' \<Longrightarrow>
     find P (map (\<lambda>x. if f_id x = f_id d then d' else x) xs) = Some d'"
  by (induction xs) (auto split: if_splits)

lemma find_snoc_new: "find P xs = None \<Longrightarrow> P d \<Longrightarrow> find P (xs @ [d]) = Some d"
  by (induction xs) (auto split: if_splits)

lemma updateERC404FungibleBalance_balance:
  assumes c: "BigInt (fungibleBalanceOf address w) = Inr c"
    and a: "BigInt amount = Inr a" and ne: "address \<noteq> []"
  shows "\<exists>w'. updateERC404FungibleBalance address amount isAddition w = (None, w') \<and>
              fungibleBalanceOf address w' =
                BigInt_toString (if isAddition then c + a else c - a)"
proof (cases "find (\<lambda>d. f_address d = address) (ERC404Fungible w)")
  case None
  then have fresh: "address \<notin> set (map f_address (ERC404Fungible w))"
    by (auto simp: find_None_iff)
  from None c have c0: "BigInt ''0'' = Inr c" by (simp add: fungibleBalanceOf_def)
  show ?thesis
    using None fresh c0 a ne
    by (simp add: updateERC404FungibleBalance_def fungible_save_def fungibleBalanceOf_def
        find_snoc_new)
next
  case (Some d)
  then have ad: "f_address d = address" by (auto simp: find_Some_iff)
  from Some c have cd: "BigInt (f_balance d) = Inr c" by (simp add: fungibleBalanceOf_def)
  show ?thesis
    using Some ad cd a ne
    by (simp add: updateERC404FungibleBalance_def fungible_save_def fungibleBalanceOf_def
        find_map_replace)
qed

lemmas num_simps = BigInt_def StringToBigInt_def trim_def isWhiteSpace_def parseDigits_def
  digitValue_def BigInt_toString_def natToString.simps digitChar_def

text \<open>
  Every balance the handler stores is a canonical string: the updates keep it so.
\<close>

lemma isCanonical_zero: "isCanonical ''0''"
  by (simp add: isCanonical_def num_simps)

lemma balancesCanonical_balance:
  "balancesCanonical w \<Longrightarrow> isCanonical (fungibleBalanceOf address w)"
  by (auto simp: balancesCanonical_def fungibleBalanceOf_def list_all_iff isCanonical_zero
      find_Some_iff split: option.splits)

lemma fungible_save_canonical:
  assumes "balancesCanonical w" and "isCanonical (f_balance d)"
  shows "balancesCanonical (snd (fungible_save isNew d w))"
  using assms by (auto simp: fungible_save_def balancesCanonical_def list_all_iff)

lemma updateERC404FungibleBalance_canonical:
  assumes "balancesCanonical w"
  shows "balancesCanonical (snd (updateERC404FungibleBalance address amount isAddition w))"
  using assms
  by (auto simp: updateERC404FungibleBalance_def Let_def isCanonical_toString
      split: option.splits sum.splits prod.splits intro!: fungible_save_canonical)

text \<open>
  An update that throws leaves the world as it was, and it throws when the address is
  empty or \<^verbatim>\<open>BigInt\<close> rejects the amount.
\<close>

lemma updateERC404FungibleBalance_error:
  "updateERC404FungibleBalance address amount isAddition w = (Some e, w') \<Longrightarrow> w' = w"
  by (auto simp: updateERC404FungibleBalance_def fungible_save_def Let_def
      split: option.splits sum.splits if_splits)

lemma updateERC404FungibleBalance_rejects:
  assumes "address = [] \<or> (\<exists>e. BigInt amount = Inl e)"
  shows "\<exists>e. updateERC404FungibleBalance address amount isAddition w = (Some e, w)"
proof -
  have "fst (updateERC404FungibleBalance address amount isAddition w) \<noteq> None"
    using assms
    by (auto simp: updateERC404FungibleBalance_def fungible_save_def Let_def find_Some_iff
        split: option.splits sum.splits)
  then obtain e w' where r: "updateERC404FungibleBalance address amount isAddition w = (Some e, w')"
    by (cases "updateERC404FungibleBalance address amount isAddition w") auto
  with updateERC404FungibleBalance_error [OF r] show ?thesis by simp
qed

text \<open>
  C2: for every address and every amount, when the balance of the address is a string
  as the handler writes it (or there is no record, read as \<^verbatim>\<open>'0'\<close>), adding the
  amount and then subtracting it leaves the address with the very string it had. For a
  non-empty address and an amount that \<^verbatim>\<open>BigInt\<close> accepts both updates succeed and
  the balance in between is the decimal string of the exact sum; otherwise both throw
  and change nothing. The arithmetic is on unbounded integers.
\<close>

theorem fungible_round_trip:
  assumes can: "isCanonical (fungibleBalanceOf address w)"
  shows "fungibleBalanceOf address
           (snd (updateERC404FungibleBalance address amount False
                  (snd (updateERC404FungibleBalance address amount True w)))) =
         fungibleBalanceOf address w \<and>
         (address \<noteq> [] \<and> BigInt amount = Inr a \<longrightarrow>
            (\<exists>c w1 w2.
               BigInt (fungibleBalanceOf address w) = Inr c \<and>
               updateERC404FungibleBalance address amount True w = (None, w1) \<and>
               fungibleBalanceOf address w1 = BigInt_toString (c + a) \<and>
               updateERC404FungibleBalance address amount False w1 = (None, w2) \<and>
               fungibleBalanceOf address w2 = fungibleBalanceOf address w))"
proof -
  from isCanonical_BigInt [OF can] obtain c where
    c: "BigInt (fungibleBalanceOf address w) = Inr c"
       "BigInt_toString c = fungibleBalanceOf address w" by blast
  have ok: "\<exists>w1 w2.
               updateERC404FungibleBalance address amount True w = (None, w1) \<and>
               fungibleBalanceOf address w1 = BigInt_toString (c + a') \<and>
               updateERC404FungibleBalance address amount False w1 = (None, w2) \<and>
               fungibleBalanceOf address w2 = fungibleBalanceOf address w"
    if ne: "address \<noteq> []" and a: "BigInt amount = Inr a'" for a'
  proof -
    from updateERC404FungibleBalance_balance [OF c(1) a ne, of True] obtain w1 where
      w1: "updateERC404FungibleBalance address amount True w = (None, w1)"
          "fungibleBalanceOf address w1 = BigInt_toString (c + a')" by auto
    have c1: "BigInt (fungibleBalanceOf address w1) = Inr (c + a')"
      by (simp add: w1(2) BigInt_toString_inverse)
    from updateERC404FungibleBalance_balance [OF c1 a ne, of False] obtain w2 where
      w2: "updateERC404FungibleBalance address amount False w1 = (None, w2)"
          "fungibleBalanceOf address w2 = BigInt_toString (c + a' - a')" by auto
    have "fungibleBalanceOf address w2 = fungibleBalanceOf address w"
      using w2(2) c(2) by simp
    with w1 w2(1) show ?thesis by blast
  qed
  have first: "fungibleBalanceOf address
           (snd (updateERC404FungibleBalance address amount False
                  (snd (updateERC404FungibleBalance address amount True w)))) =
         fungibleBalanceOf address w"
  proof (cases "address \<noteq> [] \<and> (\<exists>a'. BigInt amount = Inr a')")
    case True
    then obtain a' where "address \<noteq> []" "BigInt amount = Inr a'" by blast
    from ok [OF this] show ?thesis by auto
  next
    case False
    then have rej: "address = [] \<or> (\<exists>e. BigInt amount = Inl e)"
      by (cases "BigInt amount") auto
    from updateERC404FungibleBalance_rejects [OF rej, of True w]
      updateERC404FungibleBalance_rejects [OF rej, of False w]
    show ?thesis by auto
  qed
  from first ok c(1) show ?thesis by blast
qed

theorem fungible_round_trip_witness:
  "isCanonical (fungibleBalanceOf ''0xb0b'' richWorld) \<and>
   fungibleBalanceOf ''0xb0b'' richWorld = ''12345678901234567890123'' \<and>
   BigInt ''5'' = Inr 5 \<and>
   fungibleBalanceOf ''0xb0b''
     (snd (updateERC404FungibleBalance ''0xb0b'' ''5'' False
            (snd (updateERC404FungibleBalance ''0xb0b'' ''5'' True richWorld)))) =
     fungibleBalanceOf ''0xb0b'' richWorld \<and>
   (\<exists>c w1 w2.
      BigInt (fungibleBalanceOf ''0xb0b'' richWorld) = Inr c \<and>
      updateERC404FungibleBalance ''0xb0b'' ''5'' True richWorld = (None, w1) \<and>
      fungibleBalanceOf ''0xb0b'' w1 = BigInt_toString (c + 5) \<and>
      updateERC404FungibleBalance ''0xb0b'' ''5'' False w1 = (None, w2) \<and>
      fungibleBalanceOf ''0xb0b'' w2 = fungibleBalanceOf ''0xb0b'' richWorld) \<and>
   fungibleBalanceOf ''0xb0b'' (snd (updateERC404FungibleBalance ''0xb0b'' ''5'' True richWorld)) =
     ''12345678901234567890128''"
proof -
  have a: "BigInt ''5'' = Inr 5" by (simp add: num_simps)
  have b: "fungibleBalanceOf ''0xb0b'' richWorld = ''12345678901234567890123''"
    by (simp add: fungibleBalanceOf_def richWorld_def emptyWorld_def)
  have c: "isCanonical (fungibleBalanceOf ''0xb0b'' richWorld)"
    unfolding b by (simp add: isCanonical_def num_simps)
  have d: "fungibleBalanceOf ''0xb0b''
             (snd (updateERC404FungibleBalance ''0xb0b'' ''5'' True richWorld)) =
           ''12345678901234567890128''"
    by (simp add: fungibleBalanceOf_def richWorld_def emptyWorld_def
        updateERC404FungibleBalance_def fungible_save_def num_simps)
  from fungible_round_trip [OF c, of "''5''" 5] a b c d show ?thesis by simp
qed

section \<open>One owner record per token\<close>

lemma holding_findOneAndDelete_filter:
  "uniqueTokenIds docs \<Longrightarrow>
     holding_findOneAndDelete tid docs = filter (\<lambda>d. h_tokenId d \<noteq> tid) docs"
proof (induction docs)
  case Nil
  then show ?case by (simp add: holding_findOneAndDelete_def)
next
  case (Cons x xs)
  then have u: "uniqueTokenIds xs" and nx: "h_tokenId x \<notin> set (map h_tokenId xs)"
    by (simp_all add: uniqueTokenIds_def)
  show ?case
  proof (cases "h_tokenId x = tid")
    case True
    have "\<forall>d\<in>set xs. h_tokenId d \<noteq> tid"
    proof
      fix d assume "d \<in> set xs"
      then have "h_tokenId d \<in> set (map h_tokenId xs)" by simp
      with nx True show "h_tokenId d \<noteq> tid" by metis
    qed
    then have "filter (\<lambda>d. h_tokenId d \<noteq> tid) xs = xs"
      by (simp add: filter_id_conv)
    with True show ?thesis by (simp add: holding_findOneAndDelete_def)
  next
    case False
    from Cons.IH [OF u] have ih:
      "holding_findOneAndDelete tid xs = filter (\<lambda>d. h_tokenId d \<noteq> tid) xs" .
    show ?thesis
    proof (cases "find (\<lambda>d. h_tokenId d = tid) xs")
      case None
      with ih False show ?thesis by (simp add: holding_findOneAndDelete_def)
    next
      case (Some d)
      then have "h_tokenId d = tid" by (auto simp: find_Some_iff)
      with False have "x \<noteq> d" by auto
      with ih False Some show ?thesis by (simp add: holding_findOneAndDelete_def)
    qed
  qed
qed

lemma deleted_store:
  assumes "uniqueTokenIds docs" and "idsBelow n docs"
  shows "uniqueTokenIds (holding_findOneAndDelete tid docs) \<and>
         idsBelow n (holding_findOneAndDelete tid docs) \<and>
         recordsOf tid (holding_findOneAndDelete tid docs) = []"
  using assms
  by (simp add: holding_findOneAndDelete_filter)
     (auto simp: uniqueTokenIds_def idsBelow_def recordsOf_def distinct_map_filter list_all_iff)

lemma created_store:
  assumes "uniqueTokenIds docs" and "idsBelow n docs"
    and "holding_create tid own n docs = Inr docs'"
  shows "uniqueTokenIds docs' \<and> idsBelow (Suc n) docs' \<and>
         docs' = docs @ [\<lparr>h_id = n, h_tokenId = tid, h_owner = own\<rparr>]"
  using assms
  by (auto simp: holding_create_def uniqueTokenIds_def idsBelow_def list_all_iff
      split: if_splits intro: less_SucI)

lemma idsBelow_Suc: "idsBelow n docs \<Longrightarrow> idsBelow (Suc n) docs"
  by (auto simp: idsBelow_def list_all_iff)

lemma transferERC721_inv:
  assumes "holdingsInv w"
  shows "holdingsInv (snd (transferERC721 tid from to w))"
proof -
  define docs1 where
    "docs1 = (if from \<noteq> zeroAddress then holding_findOneAndDelete tid (ERC721Holding w)
              else ERC721Holding w)"
  from assms have d1: "uniqueTokenIds docs1" "idsBelow (nextId w) docs1"
    using deleted_store [of "ERC721Holding w" "nextId w" tid]
    by (auto simp: docs1_def holdingsInv_def)
  show ?thesis
  proof (cases "holding_create tid (toLowerCase to) (nextId w) docs1")
    case (Inl e)
    with assms d1 show ?thesis
      by (auto simp: transferERC721_def holdingsInv_def docs1_def Let_def)
  next
    case (Inr docs')
    from created_store [OF d1 Inr] assms Inr show ?thesis
      by (auto simp: transferERC721_def holdingsInv_def docs1_def Let_def idsBelow_Suc)
  qed
qed

lemma transferERC404_inv:
  assumes "holdingsInv w"
  shows "holdingsInv (snd (transferERC404 tid from to w))"
proof -
  define docs1 where
    "docs1 = (if from \<noteq> zeroAddress then holding_findOneAndDelete tid (ERC404NFT w)
              else ERC404NFT w)"
  from assms have d1: "uniqueTokenIds docs1" "idsBelow (nextId w) docs1"
    using deleted_store [of "ERC404NFT w" "nextId w" tid]
    by (auto simp: docs1_def holdingsInv_def)
  show ?thesis
  proof (cases "holding_create tid (toLowerCase to) (nextId w) docs1")
    case (Inl e)
    with assms d1 show ?thesis
      by (auto simp: transferERC404_def holdingsInv_def docs1_def Let_def)
  next
    case (Inr docs')
    from created_store [OF d1 Inr] assms Inr show ?thesis
      by (auto simp: transferERC404_def holdingsInv_def docs1_def Let_def idsBelow_Suc)
  qed
qed

lemma nftTransferStep_inv:
  assumes "holdingsInv w"
  shows "holdingsInv (snd (nftTransferStep seen t w))"
proof -
  have a: "\<And>tid from to e w'. transferERC721 tid from to w = (e, w') \<Longrightarrow> holdingsInv w'"
    using transferERC721_inv [OF assms] by (metis snd_conv)
  have b: "\<And>tid from to e w'. transferERC404 tid from to w = (e, w') \<Longrightarrow> holdingsInv w'"
    using transferERC404_inv [OF assms] by (metis snd_conv)
  show ?thesis
    using assms
    by (auto simp: nftTransferStep_def split: option.splits prod.splits dest: a b)
qed

lemma replaced_store:
  assumes u: "uniqueTokenIds docs" and i: "idsBelow n docs"
    and t: "tid \<noteq> []" and o: "own \<noteq> []"
  shows "\<exists>docs'. holding_create tid own n (holding_findOneAndDelete tid docs) = Inr docs' \<and>
           recordsOf tid docs' = [\<lparr>h_id = n, h_tokenId = tid, h_owner = own\<rparr>] \<and>
           list_all (\<lambda>d. d \<notin> set docs') (recordsOf tid docs)"
proof -
  let ?del = "holding_findOneAndDelete tid docs"
  let ?new = "\<lparr>h_id = n, h_tokenId = tid, h_owner = own\<rparr>"
  from deleted_store [OF u i, of tid] have none: "recordsOf tid ?del = []" by simp
  then have notin: "tid \<notin> set (map h_tokenId ?del)"
    by (auto simp: recordsOf_def filter_empty_conv)
  with t o have c: "holding_create tid own n ?del = Inr (?del @ [?new])"
    by (simp add: holding_create_def)
  have r: "recordsOf tid (?del @ [?new]) = [?new]"
    using none by (simp add: recordsOf_def)
  have "list_all (\<lambda>d. d \<notin> set (?del @ [?new])) (recordsOf tid docs)"
  proof (unfold list_all_iff, intro ballI)
    fix d assume d: "d \<in> set (recordsOf tid docs)"
    then have "h_id d < n" using i by (auto simp: recordsOf_def idsBelow_def list_all_iff)
    then have "d \<noteq> ?new" by auto
    moreover from d have "h_tokenId d = tid" by (simp add: recordsOf_def)
    with notin have "d \<notin> set ?del" by auto
    ultimately show "d \<notin> set (?del @ [?new])" by simp
  qed
  with c r show ?thesis by blast
qed

lemma toLowerCase_nonempty: "s \<noteq> [] \<Longrightarrow> toLowerCase s \<noteq> []"
  by (simp add: toLowerCase_def)

lemma lower_addresses_differ: "toLowerCase erc721Address \<noteq> toLowerCase erc404Address"
  by (simp add: lower404 lower721)

lemma nftTransfersLoop_inv:
  "holdingsInv w \<Longrightarrow> holdingsInv (snd (nftTransfersLoop seen ts w))"
proof (induction ts arbitrary: seen w)
  case Nil
  then show ?case by simp
next
  case (Cons t ts)
  from nftTransferStep_inv [OF Cons.prems, of seen t]
  have i: "holdingsInv (snd (nftTransferStep seen t w))" .
  show ?case
  proof (cases "nftTransferStep seen t w")
    case (Pair r w1)
    with i have i1: "holdingsInv w1" by simp
    show ?thesis
    proof (cases r)
      case (Inl e)
      with Pair i1 show ?thesis by simp
    next
      case (Inr seen1)
      with Pair Cons.IH [OF i1, of seen1] show ?thesis by simp
    qed
  qed
qed

text \<open>
  The later phases of the handler leave the holdings alone, so the whole handler keeps
  the invariant.
\<close>

lemma sameHoldings_refl [simp]: "sameHoldings w w"
  by (simp add: sameHoldings_def)

lemma sameHoldings_trans: "sameHoldings w w1 \<Longrightarrow> sameHoldings w1 w2 \<Longrightarrow> sameHoldings w w2"
  by (simp add: sameHoldings_def)

lemma sameHoldings_inv: "sameHoldings w w' \<Longrightarrow> holdingsInv w \<Longrightarrow> holdingsInv w'"
  by (auto simp: sameHoldings_def holdingsInv_def idsBelow_def list_all_iff)

lemma fungible_save_holdings: "sameHoldings w (snd (fungible_save isNew d w))"
  by (simp add: fungible_save_def sameHoldings_def)

lemma updateERC404FungibleBalance_holdings:
  "sameHoldings w (snd (updateERC404FungibleBalance a v add w))"
  using fungible_save_holdings
  by (auto simp: updateERC404FungibleBalance_def Let_def
      split: option.splits sum.splits prod.splits)

lemma updateERC404FungibleBalance_holdings_after:
  "sameHoldings w w0 \<Longrightarrow> sameHoldings w (snd (updateERC404FungibleBalance a v add w0))"
  by (erule sameHoldings_trans) (rule updateERC404FungibleBalance_holdings)

lemma erc20TransferStep_holdings: "sameHoldings w (snd (erc20TransferStep t w))"
proof -
  have u: "\<And>a v add w0 r w1. updateERC404FungibleBalance a v add w0 = (r, w1) \<Longrightarrow>
             sameHoldings w0 w1"
    using updateERC404FungibleBalance_holdings by (metis snd_conv)
  show ?thesis
    by (auto simp: erc20TransferStep_def updateERC404FungibleBalance_holdings
        updateERC404FungibleBalance_holdings_after split: option.splits prod.splits dest!: u)
qed

lemma erc20TransfersLoop_holdings: "sameHoldings w (snd (erc20TransfersLoop ts w))"
proof (induction ts arbitrary: w)
  case Nil
  then show ?case by simp
next
  case (Cons t ts)
  show ?case
  proof (cases "erc20TransferStep t w")
    case (Pair r w1)
    with erc20TransferStep_holdings [of w t] have s: "sameHoldings w w1" by simp
    show ?thesis
    proof (cases r)
      case None
      with Pair s Cons.IH [of w1] show ?thesis by (auto intro: sameHoldings_trans)
    next
      case (Some e)
      with Pair s show ?thesis by simp
    qed
  qed
qed

lemma minting_save_holdings: "sameHoldings w (snd (minting_save isNew d w))"
  by (simp add: minting_save_def sameHoldings_def)

lemma broadcastUpdate_holdings: "sameHoldings w w' \<Longrightarrow> sameHoldings w (broadcastUpdate ty tok w')"
  by (simp add: broadcastUpdate_def sameHoldings_def)

lemma Opening_create_holdings: "sameHoldings w (snd (Opening_create tid op h ty w))"
  by (simp add: Opening_create_def sameHoldings_def)

lemma onTicketMinted_holdings: "sameHoldings w (snd (onTicketMinted h a w))"
proof -
  have m: "\<And>isNew d r w1. minting_save isNew d w = (r, w1) \<Longrightarrow> sameHoldings w w1"
    using minting_save_holdings by (metis snd_conv)
  show ?thesis
    by (auto simp: onTicketMinted_def Let_def split: sum.splits prod.splits option.splits
        dest!: m intro: broadcastUpdate_holdings)
qed

lemma updateRollAndPayout_holdings: "sameHoldings w (snd (updateRollAndPayout h tid rr win w))"
proof -
  have m: "\<And>isNew d r w1. minting_save isNew d w = (r, w1) \<Longrightarrow> sameHoldings w w1"
    using minting_save_holdings by (metis snd_conv)
  show ?thesis
    by (auto simp: updateRollAndPayout_def Let_def split: sum.splits prod.splits option.splits
        dest!: m intro: broadcastUpdate_holdings)
qed

lemma handleEvent_holdings: "sameHoldings w (snd (handleEvent h ty ev w))"
  by (cases ev)
     (auto simp: handleEvent_def onTicketMinted_holdings updateRollAndPayout_holdings
       Opening_create_holdings split: sum.splits)

lemma processLog_holdings: "sameHoldings w (processLog ifs h log w)"
  by (auto simp: processLog_def logBody_def handleEvent_holdings split: option.splits)

lemma logsLoop_holdings: "sameHoldings w (logsLoop ifs h ls w)"
proof (induction ls arbitrary: w)
  case Nil
  then show ?case by simp
next
  case (Cons l ls)
  from processLog_holdings [of w ifs h l] Cons.IH [of "processLog ifs h l w"]
  show ?case by (auto intro: sameHoldings_trans)
qed

lemma ProcessedTransaction_create_holdings:
  "sameHoldings w (snd (ProcessedTransaction_create h w))"
  by (simp add: ProcessedTransaction_create_def sameHoldings_def)

lemma webhook_holdingsInv:
  assumes "holdingsInv w"
  shows "holdingsInv (snd (webhook ifs b w))"
proof -
  obtain r1 w1 where n: "nftTransfersLoop {} (listOrEmpty (nftTransfers b)) w = (r1, w1)"
    by (cases "nftTransfersLoop {} (listOrEmpty (nftTransfers b)) w")
  obtain r2 w2 where e: "erc20TransfersLoop (listOrEmpty (erc20Transfers b)) w1 = (r2, w2)"
    by (cases "erc20TransfersLoop (listOrEmpty (erc20Transfers b)) w1")
  have i1: "holdingsInv w1"
    using nftTransfersLoop_inv [OF assms, of "{}" "listOrEmpty (nftTransfers b)"] n by simp
  have "sameHoldings w1 w2"
    using erc20TransfersLoop_holdings [of w1 "listOrEmpty (erc20Transfers b)"] e by simp
  then have i2: "holdingsInv w2" using i1 by (rule sameHoldings_inv)
  have i3: "\<And>h. holdingsInv (logsLoop ifs h (listOrEmpty (logs b)) w2)"
    using logsLoop_holdings i2 by (rule sameHoldings_inv)
  have i4: "\<And>h r w4. ProcessedTransaction_create h (logsLoop ifs h (listOrEmpty (logs b)) w2)
               = (r, w4) \<Longrightarrow> holdingsInv w4"
  proof -
    fix h r w4
    assume c: "ProcessedTransaction_create h (logsLoop ifs h (listOrEmpty (logs b)) w2) = (r, w4)"
    have "sameHoldings (logsLoop ifs h (listOrEmpty (logs b)) w2) w4"
      using ProcessedTransaction_create_holdings [of "logsLoop ifs h (listOrEmpty (logs b)) w2" h] c
      by simp
    then show "holdingsInv w4" using i3 by (rule sameHoldings_inv)
  qed
  show ?thesis
    using assms n e i1 i2
    by (auto simp: webhook_def webhookTry_def split: prod.splits sum.splits option.splits
        dest: i4)
qed

text \<open>
  C3: in a world where each holdings collection has at most one record per token id,
  every iteration of the loop over \<^verbatim>\<open>nftTransfers\<close>, the whole loop and the whole
  handler leave it so. An entry with all fields present, a \<^verbatim>\<open>from\<close> other than the
  zero address and a token id not yet in \<^verbatim>\<open>processedTokenIds\<close> succeeds on the
  collection of its class; afterwards the collection holds exactly one record of the
  token id, the new one with the lower-cased \<^verbatim>\<open>to\<close> as owner, and no record the
  token id had before.
\<close>

theorem transfer_leaves_one_owner:
  assumes inv: "holdingsInv w"
    and fields: "nt_contract t = Some contract" "nt_tokenId t = Some tokenId"
      "nt_from t = Some from" "nt_to t = Some to"
  shows "holdingsInv (snd (nftTransferStep seen t w)) \<and>
    holdingsInv (snd (nftTransfersLoop seen ts w)) \<and>
    holdingsInv (snd (webhook ifs b w)) \<and>
    (contract \<noteq> [] \<and> tokenId \<noteq> [] \<and> from \<noteq> [] \<and> to \<noteq> [] \<and> from \<noteq> zeroAddress \<and>
     tokenId \<notin> seen \<and> toLowerCase contract = toLowerCase erc721Address \<longrightarrow>
       (\<exists>w'. nftTransferStep seen t w = (Inr seen, w') \<and>
          recordsOf tokenId (ERC721Holding w') =
            [\<lparr>h_id = nextId w, h_tokenId = tokenId, h_owner = toLowerCase to\<rparr>] \<and>
          list_all (\<lambda>d. d \<notin> set (ERC721Holding w')) (recordsOf tokenId (ERC721Holding w)))) \<and>
    (contract \<noteq> [] \<and> tokenId \<noteq> [] \<and> from \<noteq> [] \<and> to \<noteq> [] \<and> from \<noteq> zeroAddress \<and>
     tokenId \<notin> seen \<and> toLowerCase contract = toLowerCase erc404Address \<longrightarrow>
       (\<exists>w'. nftTransferStep seen t w = (Inr (insert tokenId seen), w') \<and>
          recordsOf tokenId (ERC404NFT w') =
            [\<lparr>h_id = nextId w, h_tokenId = tokenId, h_owner = toLowerCase to\<rparr>] \<and>
          list_all (\<lambda>d. d \<notin> set (ERC404NFT w')) (recordsOf tokenId (ERC404NFT w))))"
proof (intro conjI impI)
  show "holdingsInv (snd (nftTransferStep seen t w))"
    using inv by (rule nftTransferStep_inv)
next
  show "holdingsInv (snd (nftTransfersLoop seen ts w))"
    using inv by (rule nftTransfersLoop_inv)
next
  show "holdingsInv (snd (webhook ifs b w))"
    using inv by (rule webhook_holdingsInv)
next
  assume a: "contract \<noteq> [] \<and> tokenId \<noteq> [] \<and> from \<noteq> [] \<and> to \<noteq> [] \<and> from \<noteq> zeroAddress \<and>
     tokenId \<notin> seen \<and> toLowerCase contract = toLowerCase erc721Address"
  from inv have u: "uniqueTokenIds (ERC721Holding w)" "idsBelow (nextId w) (ERC721Holding w)"
    by (simp_all add: holdingsInv_def)
  from a have "toLowerCase to \<noteq> []" by (simp add: toLowerCase_nonempty)
  with replaced_store [OF u, of tokenId "toLowerCase to"] a obtain docs' where
    d: "holding_create tokenId (toLowerCase to) (nextId w)
          (holding_findOneAndDelete tokenId (ERC721Holding w)) = Inr docs'"
       "recordsOf tokenId docs' =
          [\<lparr>h_id = nextId w, h_tokenId = tokenId, h_owner = toLowerCase to\<rparr>]"
       "list_all (\<lambda>d. d \<notin> set docs') (recordsOf tokenId (ERC721Holding w))" by blast
  from a d fields show "\<exists>w'. nftTransferStep seen t w = (Inr seen, w') \<and>
          recordsOf tokenId (ERC721Holding w') =
            [\<lparr>h_id = nextId w, h_tokenId = tokenId, h_owner = toLowerCase to\<rparr>] \<and>
          list_all (\<lambda>d. d \<notin> set (ERC721Holding w')) (recordsOf tokenId (ERC721Holding w))"
    by (simp add: nftTransferStep_def transferERC721_def)
next
  assume a: "contract \<noteq> [] \<and> tokenId \<noteq> [] \<and> from \<noteq> [] \<and> to \<noteq> [] \<and> from \<noteq> zeroAddress \<and>
     tokenId \<notin> seen \<and> toLowerCase contract = toLowerCase erc404Address"
  from inv have u: "uniqueTokenIds (ERC404NFT w)" "idsBelow (nextId w) (ERC404NFT w)"
    by (simp_all add: holdingsInv_def)
  from a have "toLowerCase to \<noteq> []" by (simp add: toLowerCase_nonempty)
  with replaced_store [OF u, of tokenId "toLowerCase to"] a obtain docs' where
    d: "holding_create tokenId (toLowerCase to) (nextId w)
          (holding_findOneAndDelete tokenId (ERC404NFT w)) = Inr docs'"
       "recordsOf tokenId docs' =
          [\<lparr>h_id = nextId w, h_tokenId = tokenId, h_owner = toLowerCase to\<rparr>]"
       "list_all (\<lambda>d. d \<notin> set docs') (recordsOf tokenId (ERC404NFT w))" by blast
  from a have ne: "toLowerCase contract \<noteq> toLowerCase erc721Address"
    using lower_addresses_differ by simp
  from a d fields ne show "\<exists>w'. nftTransferStep seen t w = (Inr (insert tokenId seen), w') \<and>
          recordsOf tokenId (ERC404NFT w') =
            [\<lparr>h_id = nextId w, h_tokenId = tokenId, h_owner = toLowerCase to\<rparr>] \<and>
          list_all (\<lambda>d. d \<notin> set (ERC404NFT w')) (recordsOf tokenId (ERC404NFT w))"
    by (simp add: nftTransferStep_def transferERC404_def)
qed


lemma alice_not_zero: "''0xA11ce'' \<noteq> zeroAddress"
  by (simp add: zeroAddress_def)

theorem transfer_leaves_one_owner_witness:
  "holdingsInv ownedWorld \<and>
   holdingsInv (snd (nftTransferStep {} (sampleNft erc721Address ''0xA11ce'') ownedWorld)) \<and>
   (\<exists>w'. nftTransferStep {} (sampleNft erc721Address ''0xA11ce'') ownedWorld = (Inr {}, w') \<and>
      recordsOf ''1'' (ERC721Holding w') = [\<lparr>h_id = 2, h_tokenId = ''1'', h_owner = ''0xb0b''\<rparr>] \<and>
      list_all (\<lambda>d. d \<notin> set (ERC721Holding w')) (recordsOf ''1'' (ERC721Holding ownedWorld))) \<and>
   (\<exists>w'. nftTransferStep {} (sampleNft erc404Address ''0xA11ce'') ownedWorld = (Inr {''1''}, w') \<and>
      recordsOf ''1'' (ERC404NFT w') = [\<lparr>h_id = 2, h_tokenId = ''1'', h_owner = ''0xb0b''\<rparr>] \<and>
      list_all (\<lambda>d. d \<notin> set (ERC404NFT w')) (recordsOf ''1'' (ERC404NFT ownedWorld)))"
proof -
  have inv: "holdingsInv ownedWorld"
    by (simp add: holdingsInv_def uniqueTokenIds_def idsBelow_def ownedWorld_def emptyWorld_def)
  have n: "nextId ownedWorld = 2" by (simp add: ownedWorld_def emptyWorld_def)
  have f1: "nt_contract (sampleNft erc721Address ''0xA11ce'') = Some erc721Address"
    "nt_tokenId (sampleNft erc721Address ''0xA11ce'') = Some ''1''"
    "nt_from (sampleNft erc721Address ''0xA11ce'') = Some ''0xA11ce''"
    "nt_to (sampleNft erc721Address ''0xA11ce'') = Some ''0xB0b''"
    by (simp_all add: sampleNft_def)
  have f2: "nt_contract (sampleNft erc404Address ''0xA11ce'') = Some erc404Address"
    "nt_tokenId (sampleNft erc404Address ''0xA11ce'') = Some ''1''"
    "nt_from (sampleNft erc404Address ''0xA11ce'') = Some ''0xA11ce''"
    "nt_to (sampleNft erc404Address ''0xA11ce'') = Some ''0xB0b''"
    by (simp_all add: sampleNft_def)
  from transfer_leaves_one_owner [OF inv f1, of "{}"] transfer_leaves_one_owner [OF inv f2, of "{}"]
    inv n
  show ?thesis
    by (simp add: addresses_configured alice_not_zero lowerB0b lower404 lower721)
qed

section \<open>A ticket minted, then resolved\<close>

lemma decodesTo_processLog:
  "decodesTo ifs log ev \<Longrightarrow>
     \<exists>ty. processLog ifs h log w = snd (handleEvent h ty ev w)"
  by (auto simp: decodesTo_def processLog_def logBody_def split: option.splits)

lemma pushLevels_safe:
  "list_all (\<lambda>l. lv_rollNumber l < 2 ^ 53) ls \<Longrightarrow>
     pushLevels acc ls = Inr (acc @ map levelOf ls)"
  by (induction ls arbitrary: acc) (simp_all add: toNumber_def levelOf_def)

lemma levelOf_valid: "list_all (\<lambda>l. l_winAmount l \<noteq> []) (map levelOf ls)"
  by (simp add: list_all_iff levelOf_def natToString_nonempty)

lemma find_minting_Some:
  "find (\<lambda>d. m_tokenId d = tid) docs = Some d \<Longrightarrow> d \<in> set docs \<and> m_tokenId d = tid"
  by (auto simp: find_Some_iff)

lemma filter_unique_key:
  assumes "distinct (map m_tokenId docs)" and "d \<in> set docs"
  shows "filter (\<lambda>x. m_tokenId x = m_tokenId d) docs = [d]"
  using assms
proof (induction docs)
  case Nil
  then show ?case by simp
next
  case (Cons x xs)
  show ?case
  proof (cases "x = d")
    case True
    from Cons.prems True have "m_tokenId x \<notin> m_tokenId ` set xs" by simp
    then have "\<forall>y\<in>set xs. m_tokenId y \<noteq> m_tokenId x" by (metis imageI)
    then have "filter (\<lambda>y. m_tokenId y = m_tokenId x) xs = []"
      by (simp add: filter_empty_conv)
    with True show ?thesis by simp
  next
    case False
    with Cons.prems have d: "d \<in> set xs" by simp
    from Cons.prems have "m_tokenId x \<notin> m_tokenId ` set xs" by simp
    with d have "m_tokenId x \<noteq> m_tokenId d" by (metis imageI)
    with Cons.IH d Cons.prems show ?thesis by simp
  qed
qed

lemma replace_by_id:
  assumes "distinct (map m_id docs)" and "d \<in> set docs" and "m_id d' = m_id d"
  shows "map (\<lambda>x. if m_id x = m_id d' then d' else x) docs =
           map (\<lambda>x. if x = d then d' else x) docs"
proof (rule map_cong [OF refl])
  fix x assume "x \<in> set docs"
  with assms have "m_id x = m_id d \<longleftrightarrow> x = d"
    by (auto simp: distinct_map inj_on_def)
  with assms(3) show "(if m_id x = m_id d' then d' else x) = (if x = d then d' else x)" by simp
qed

lemma minting_save_existing:
  assumes inv: "mintingInv w"
    and f: "find (\<lambda>d. m_tokenId d = tid) (MintingDetails w) = Some d"
    and same: "m_id d' = m_id d" "m_tokenId d' = tid" and v: "minting_valid d'"
  shows "\<exists>w'. minting_save False d' w = (None, w') \<and> mintingOf tid w' = [d'] \<and>
           mintingInv w' \<and> nextId w' = nextId w"
proof -
  let ?docs = "MintingDetails w"
  let ?new = "map (\<lambda>x. if x = d then d' else x) ?docs"
  from find_minting_Some [OF f] have d: "d \<in> set ?docs" "m_tokenId d = tid" by simp_all
  from inv have di: "distinct (map m_id ?docs)" and dt: "distinct (map m_tokenId ?docs)"
    and below: "list_all (\<lambda>d. m_id d < nextId w) ?docs" and valid: "list_all minting_valid ?docs"
    by (simp_all add: mintingInv_def)
  have s: "minting_save False d' w = (None, w\<lparr>MintingDetails := ?new\<rparr>)"
    using v replace_by_id [OF di d(1) same(1)] by (simp add: minting_save_def)
  have keys: "map m_tokenId ?new = map m_tokenId ?docs"
    using d same by (auto intro: map_cong [OF refl])
  have ids: "map m_id ?new = map m_id ?docs"
    using d same by (auto intro: map_cong [OF refl])
  have mem: "d' \<in> set ?new" using d(1) by (auto simp: image_iff)
  have dk: "distinct (map m_tokenId ?new)" unfolding keys by (rule dt)
  have dids: "distinct (map m_id ?new)" unfolding ids by (rule di)
  from filter_unique_key [OF dk mem] same(2)
  have one: "filter (\<lambda>x. m_tokenId x = tid) ?new = [d']" by simp
  have below': "list_all (\<lambda>d. m_id d < nextId w) ?new"
    using below d same by (auto simp: list_all_iff)
  have valid': "list_all minting_valid ?new"
    using valid v by (auto simp: list_all_iff)
  have "mintingInv (w\<lparr>MintingDetails := ?new\<rparr>)"
    using dk dids below' valid' by (simp add: mintingInv_def)
  with s one show ?thesis by (simp add: mintingOf_def)
qed

lemma minting_save_new:
  assumes inv: "mintingInv w"
    and f: "find (\<lambda>d. m_tokenId d = tid) (MintingDetails w) = None"
    and same: "m_id d' = nextId w" "m_tokenId d' = tid" and v: "minting_valid d'"
  shows "\<exists>w'. minting_save True d' w = (None, w') \<and> mintingOf tid w' = [d'] \<and>
           mintingInv w' \<and> nextId w' = Suc (nextId w)"
proof -
  let ?docs = "MintingDetails w"
  from f have none: "\<forall>x\<in>set ?docs. m_tokenId x \<noteq> tid" by (simp add: find_None_iff)
  then have notin: "tid \<notin> set (map m_tokenId ?docs)" by auto
  from inv have di: "distinct (map m_id ?docs)" and dt: "distinct (map m_tokenId ?docs)"
    and below: "list_all (\<lambda>d. m_id d < nextId w) ?docs" and valid: "list_all minting_valid ?docs"
    by (simp_all add: mintingInv_def)
  have s: "minting_save True d' w =
             (None, w\<lparr>MintingDetails := ?docs @ [d'], nextId := Suc (nextId w)\<rparr>)"
    using v notin same by (simp add: minting_save_def)
  have one: "filter (\<lambda>x. m_tokenId x = tid) (?docs @ [d']) = [d']"
    using none same by (simp add: filter_empty_conv)
  have fresh: "nextId w \<notin> set (map m_id ?docs)"
    using below by (auto simp: list_all_iff)
  have "mintingInv (w\<lparr>MintingDetails := ?docs @ [d'], nextId := Suc (nextId w)\<rparr>)"
    using di dt below valid v notin fresh same
    by (auto simp: mintingInv_def list_all_iff intro: less_SucI)
  with s one show ?thesis by (simp add: mintingOf_def)
qed

lemma broadcastUpdate_minting [simp]:
  "MintingDetails (broadcastUpdate ty tok w) = MintingDetails w"
  "nextId (broadcastUpdate ty tok w) = nextId w"
  by (simp_all add: broadcastUpdate_def)

lemma mintingInv_broadcast [simp]: "mintingInv (broadcastUpdate ty tok w) = mintingInv w"
  by (simp add: mintingInv_def)

lemma mintingOf_broadcast [simp]: "mintingOf tid (broadcastUpdate ty tok w) = mintingOf tid w"
  by (simp add: mintingOf_def)

lemma mintingOf_find:
  "mintingOf tid w = [d] \<Longrightarrow> find (\<lambda>x. m_tokenId x = tid) (MintingDetails w) = Some d"
proof -
  assume a: "mintingOf tid w = [d]"
  have "\<And>docs. filter (\<lambda>x. m_tokenId x = tid) docs = [d] \<Longrightarrow>
          find (\<lambda>x. m_tokenId x = tid) docs = Some d"
  proof -
    fix docs show "filter (\<lambda>x. m_tokenId x = tid) docs = [d] \<Longrightarrow>
          find (\<lambda>x. m_tokenId x = tid) docs = Some d"
      by (induction docs) (auto split: if_splits)
  qed
  with a show ?thesis by (simp add: mintingOf_def)
qed

lemma onTicketMinted_record:
  assumes inv: "mintingInv w" and h: "h \<noteq> []"
    and safe: "list_all (\<lambda>l. lv_rollNumber l < 2 ^ 53) (tm_levels a)"
  shows "\<exists>w' d. onTicketMinted h a w = (None, w') \<and> mintingInv w' \<and>
           mintingOf (natToString (tm_tokenId a)) w' = [d] \<and>
           m_levels d = levelsBefore (natToString (tm_tokenId a)) w @ map levelOf (tm_levels a)"
proof (cases "find (\<lambda>d. m_tokenId d = natToString (tm_tokenId a)) (MintingDetails w)")
  case None
  let ?tid = "natToString (tm_tokenId a)"
  let ?d = "\<lparr>m_id = nextId w, m_tokenId = ?tid, m_levels = map levelOf (tm_levels a),
             m_rollResult = None, m_payout = None, m_transactionHash = h\<rparr>"
  have v: "minting_valid ?d"
    using h by (simp add: minting_valid_def natToString_nonempty levelOf_valid)
  from minting_save_new [OF inv None _ _ v] obtain w' where
    w': "minting_save True ?d w = (None, w')" "mintingOf ?tid w' = [?d]" "mintingInv w'"
    by auto
  show ?thesis
    using None w' pushLevels_safe [OF safe, of "[]"]
    by (simp add: onTicketMinted_def minting_findOrNew_def levelsBefore_def)
next
  case (Some d0)
  let ?tid = "natToString (tm_tokenId a)"
  let ?d = "d0\<lparr>m_levels := m_levels d0 @ map levelOf (tm_levels a)\<rparr>"
  from find_minting_Some [OF Some] inv have "minting_valid d0"
    by (auto simp: mintingInv_def list_all_iff)
  then have v: "minting_valid ?d"
    using levelOf_valid [of "tm_levels a"] by (simp add: minting_valid_def)
  from find_minting_Some [OF Some] have "m_tokenId ?d = ?tid" by simp
  from minting_save_existing [OF inv Some _ this v] obtain w' where
    w': "minting_save False ?d w = (None, w')" "mintingOf ?tid w' = [?d]" "mintingInv w'"
    by auto
  show ?thesis
    using Some w' pushLevels_safe [OF safe, of "m_levels d0"]
    by (simp add: onTicketMinted_def minting_findOrNew_def levelsBefore_def)
qed

lemma updateRollAndPayout_record:
  assumes inv: "mintingInv w" and one: "mintingOf tid w = [d]"
  shows "\<exists>w'. updateRollAndPayout h tid rr win w = (None, w') \<and> mintingInv w' \<and>
           mintingOf tid w' = [d\<lparr>m_rollResult := Some rr, m_payout := Some win\<rparr>]"
proof -
  let ?d = "d\<lparr>m_rollResult := Some rr, m_payout := Some win\<rparr>"
  from mintingOf_find [OF one] have f: "find (\<lambda>x. m_tokenId x = tid) (MintingDetails w) = Some d" .
  from find_minting_Some [OF f] inv have "minting_valid d"
    by (auto simp: mintingInv_def list_all_iff)
  then have v: "minting_valid ?d" by (simp add: minting_valid_def)
  from find_minting_Some [OF f] have "m_tokenId ?d = tid" by simp
  from minting_save_existing [OF inv f _ this v] obtain w' where
    w': "minting_save False ?d w = (None, w')" "mintingOf tid w' = [?d]" "mintingInv w'"
    by auto
  show ?thesis
    using f w' by (simp add: updateRollAndPayout_def minting_findOrNew_def)
qed

text \<open>
  C5, as amended: a log decoded as \<^verbatim>\<open>TicketMinted\<close> followed by a log decoded as
  \<^verbatim>\<open>TicketResolved\<close> for the same token, where every roll number of the levels and
  the roll result are below \<open>2 ^ 53\<close>: after the first the collection holds one record
  of the token, whose levels are those it had before followed by the minted ones; after
  the second it holds that same record with \<^verbatim>\<open>rollResult\<close> and \<^verbatim>\<open>payout\<close> set from
  the event and everything else, the levels included, unchanged.
\<close>

theorem minted_then_resolved:
  assumes inv: "mintingInv w"
    and l1: "decodesTo ifs log1 (TicketMinted a)"
    and l2: "decodesTo ifs log2 (TicketResolved r)"
    and same: "tr_tokenId r = tm_tokenId a"
    and h: "h1 \<noteq> []"
    and safe: "list_all (\<lambda>l. lv_rollNumber l < 2 ^ 53) (tm_levels a)" "tr_rollResult r < 2 ^ 53"
  shows "\<exists>d1.
           mintingOf (natToString (tm_tokenId a)) (processLog ifs h1 log1 w) = [d1] \<and>
           m_levels d1 =
             levelsBefore (natToString (tm_tokenId a)) w @ map levelOf (tm_levels a) \<and>
           mintingOf (natToString (tm_tokenId a))
               (processLog ifs h2 log2 (processLog ifs h1 log1 w)) =
             [d1\<lparr>m_rollResult := Some (tr_rollResult r),
                  m_payout := Some (natToString (tr_winAmount r))\<rparr>]"
proof -
  let ?tid = "natToString (tm_tokenId a)"
  from decodesTo_processLog [OF l1] obtain ty1 where
    p1: "processLog ifs h1 log1 w = snd (handleEvent h1 ty1 (TicketMinted a) w)" by blast
  from onTicketMinted_record [OF inv h safe(1)] obtain w1 d1 where
    m: "onTicketMinted h1 a w = (None, w1)" "mintingInv w1" "mintingOf ?tid w1 = [d1]"
       "m_levels d1 = levelsBefore ?tid w @ map levelOf (tm_levels a)" by blast
  from p1 m(1) have w1: "processLog ifs h1 log1 w = w1" by (simp add: handleEvent_def)
  from decodesTo_processLog [OF l2] obtain ty2 where
    p2: "processLog ifs h2 log2 w1 = snd (handleEvent h2 ty2 (TicketResolved r) w1)" by blast
  from updateRollAndPayout_record [OF m(2) m(3)] obtain w2 where
    u: "updateRollAndPayout h2 ?tid (tr_rollResult r) (natToString (tr_winAmount r)) w1 = (None, w2)"
       "mintingOf ?tid w2 =
          [d1\<lparr>m_rollResult := Some (tr_rollResult r),
               m_payout := Some (natToString (tr_winAmount r))\<rparr>]" by blast
  from p2 u(1) same safe(2) have w2: "processLog ifs h2 log2 w1 = w2"
    by (simp add: handleEvent_def toNumber_def)
  from m(3,4) u(2) show ?thesis unfolding w1 w2 by blast
qed

theorem minted_then_resolved_witness:
  "mintingInv emptyWorld \<and>
   decodesTo sampleInterfaces (sampleLog ''0x01'') (TicketMinted mintedSample) \<and>
   decodesTo sampleInterfaces (sampleLog ''0x03'')
     (TicketResolved \<lparr>tr_tokenId = 7, tr_rollResult = 4, tr_winAmount = 1000\<rparr>) \<and>
   (\<exists>d1.
      mintingOf ''7'' (processLog sampleInterfaces ''0xh1'' (sampleLog ''0x01'') emptyWorld) = [d1] \<and>
      m_levels d1 = [\<lparr>l_winAmount = ''1000'', l_rollNumber = 3\<rparr>,
                     \<lparr>l_winAmount = ''250'', l_rollNumber = 5\<rparr>] \<and>
      mintingOf ''7''
          (processLog sampleInterfaces ''0xh2'' (sampleLog ''0x03'')
             (processLog sampleInterfaces ''0xh1'' (sampleLog ''0x01'') emptyWorld)) =
        [d1\<lparr>m_rollResult := Some 4, m_payout := Some ''1000''\<rparr>])"
proof -
  have inv: "mintingInv emptyWorld" by (simp add: mintingInv_def emptyWorld_def)
  have l1: "decodesTo sampleInterfaces (sampleLog ''0x01'') (TicketMinted mintedSample)"
    by (simp add: decodesTo_def sampleLog_def truthy_def decodeLog_def logTopics_def
        sampleInterfaces_def)
  have l2: "decodesTo sampleInterfaces (sampleLog ''0x03'')
     (TicketResolved \<lparr>tr_tokenId = 7, tr_rollResult = 4, tr_winAmount = 1000\<rparr>)"
    by (simp add: decodesTo_def sampleLog_def truthy_def decodeLog_def logTopics_def
        sampleInterfaces_def)
  have same: "tr_tokenId \<lparr>tr_tokenId = 7, tr_rollResult = 4, tr_winAmount = 1000\<rparr> =
                tm_tokenId mintedSample" by (simp add: mintedSample_def)
  have h: "''0xh1'' \<noteq> []" by simp
  have safe: "list_all (\<lambda>l. lv_rollNumber l < 2 ^ 53) (tm_levels mintedSample)"
    "tr_rollResult \<lparr>tr_tokenId = 7, tr_rollResult = 4, tr_winAmount = 1000\<rparr> < 2 ^ 53"
    by (simp_all add: mintedSample_def)
  have s7: "natToString (tm_tokenId mintedSample) = ''7''"
    by (simp add: mintedSample_def natToString.simps digitChar_def)
  from minted_then_resolved [OF inv l1 l2 same h safe, of "''0xh2''"] inv l1 l2
  show ?thesis
    by (simp add: s7 levelsBefore_def emptyWorld_def levelOf_def mintedSample_def
        natToString.simps digitChar_def)
qed

text \<open>
  Without the bound the claim fails. A \<^verbatim>\<open>TicketResolved\<close> log with roll result
  \<open>2 ^ 53\<close> makes \<^verbatim>\<open>toNumber()\<close> throw inside the per-log \<^verbatim>\<open>try\<close>: nothing is
  saved, and the record of the mint keeps \<^verbatim>\<open>rollResult\<close> and \<^verbatim>\<open>payout\<close> unset. A
  \<^verbatim>\<open>TicketMinted\<close> log with a roll number \<open>2 ^ 53\<close> is dropped in the same way, and
  the record that the resolution then creates has no levels.
\<close>

theorem minted_then_resolved_counterexample:
  "decodeLog overflowInterfaces (lg_data (sampleLog ''0x01'')) (logTopics (sampleLog ''0x01'')) =
     Some (TicketMinted mintedSample) \<and>
   decodeLog overflowInterfaces (lg_data (sampleLog ''0x09'')) (logTopics (sampleLog ''0x09'')) =
     Some (TicketResolved
             \<lparr>tr_tokenId = 7, tr_rollResult = 9007199254740992, tr_winAmount = 1000\<rparr>) \<and>
   processLog overflowInterfaces ''0xh2'' (sampleLog ''0x09'')
       (processLog overflowInterfaces ''0xh1'' (sampleLog ''0x01'') emptyWorld) =
     processLog overflowInterfaces ''0xh1'' (sampleLog ''0x01'') emptyWorld \<and>
   mintingOf ''7''
       (processLog overflowInterfaces ''0xh2'' (sampleLog ''0x09'')
          (processLog overflowInterfaces ''0xh1'' (sampleLog ''0x01'') emptyWorld)) =
     [\<lparr>m_id = 0, m_tokenId = ''7'',
       m_levels = [\<lparr>l_winAmount = ''1000'', l_rollNumber = 3\<rparr>,
                   \<lparr>l_winAmount = ''250'', l_rollNumber = 5\<rparr>],
       m_rollResult = None, m_payout = None, m_transactionHash = ''0xh1''\<rparr>] \<and>
   processLog overflowInterfaces ''0xh1'' (sampleLog ''0x08'') emptyWorld = emptyWorld \<and>
   mintingOf ''7''
       (processLog overflowInterfaces ''0xh2'' (sampleLog ''0x03'')
          (processLog overflowInterfaces ''0xh1'' (sampleLog ''0x08'') emptyWorld)) =
     [\<lparr>m_id = 0, m_tokenId = ''7'', m_levels = [],
       m_rollResult = Some 4, m_payout = Some ''1000'', m_transactionHash = ''0xh2''\<rparr>]"
proof -
  note ev = overflowInterfaces_def mintingOf_def processLog_def logBody_def decodeLog_def
    logTopics_def handleEvent_def onTicketMinted_def updateRollAndPayout_def
    minting_findOrNew_def minting_save_def minting_valid_def broadcastUpdate_def toNumber_def
    sampleLog_def emptyWorld_def mintedSample_def truthy_def lower721 lower404
    natToString.simps digitChar_def Let_def
  have a: "processLog overflowInterfaces ''0xh1'' (sampleLog ''0x01'') emptyWorld =
     emptyWorld\<lparr>MintingDetails :=
         [\<lparr>m_id = 0, m_tokenId = ''7'',
           m_levels = [\<lparr>l_winAmount = ''1000'', l_rollNumber = 3\<rparr>,
                       \<lparr>l_winAmount = ''250'', l_rollNumber = 5\<rparr>],
           m_rollResult = None, m_payout = None, m_transactionHash = ''0xh1''\<rparr>],
       nextId := 1, trace := [Send 0 ''MINTING_DETAILS_UPDATED'' ''7'']\<rparr>"
    by (simp add: ev)
  have b: "processLog overflowInterfaces ''0xh2'' (sampleLog ''0x09'')
       (processLog overflowInterfaces ''0xh1'' (sampleLog ''0x01'') emptyWorld) =
     processLog overflowInterfaces ''0xh1'' (sampleLog ''0x01'') emptyWorld"
    unfolding a by (simp add: ev)
  have c: "mintingOf ''7'' (processLog overflowInterfaces ''0xh1'' (sampleLog ''0x01'') emptyWorld) =
     [\<lparr>m_id = 0, m_tokenId = ''7'',
       m_levels = [\<lparr>l_winAmount = ''1000'', l_rollNumber = 3\<rparr>,
                   \<lparr>l_winAmount = ''250'', l_rollNumber = 5\<rparr>],
       m_rollResult = None, m_payout = None, m_transactionHash = ''0xh1''\<rparr>]"
    unfolding a by (simp add: mintingOf_def emptyWorld_def)
  have d: "processLog overflowInterfaces ''0xh1'' (sampleLog ''0x08'') emptyWorld = emptyWorld"
    by (simp add: ev)
  have e: "mintingOf ''7'' (processLog overflowInterfaces ''0xh2'' (sampleLog ''0x03'') emptyWorld) =
     [\<lparr>m_id = 0, m_tokenId = ''7'', m_levels = [],
       m_rollResult = Some 4, m_payout = Some ''1000'', m_transactionHash = ''0xh2''\<rparr>]"
    by (simp add: ev)
  have f: "decodeLog overflowInterfaces (lg_data (sampleLog ''0x01''))
             (logTopics (sampleLog ''0x01'')) = Some (TicketMinted mintedSample)"
    "decodeLog overflowInterfaces (lg_data (sampleLog ''0x09''))
       (logTopics (sampleLog ''0x09'')) =
     Some (TicketResolved
             \<lparr>tr_tokenId = 7, tr_rollResult = 9007199254740992, tr_winAmount = 1000\<rparr>)"
    by (simp_all add: overflowInterfaces_def decodeLog_def logTopics_def sampleLog_def)
  from b c d e f show ?thesis by simp
qed

section \<open>Duplicate token ids in one body\<close>















end
